theory Spec2Isabelle
  imports Complex_Main "HOL-Library.Sublist"
begin

section \<open>The full-text-search quickstart (quickstart/v12/src/full-text-search.ts)\<close>

text \<open>
  The script is a linear sequence of awaited calls to the search client library, with
  console output in between. It is modelled as a state-passing program over a record
  holding the console/remote-call trace and the store of the objects the script builds.
  Every raise of the source is a value \<open>Inl e\<close>; every remote call is answered by
  a parameter of the model (the record \<open>sdk\<close>), so a theorem quantified over that
  record holds whatever the service answers.
\<close>

subsection \<open>JavaScript values\<close>

text \<open>
  The two bundled JSON documents are untyped at run time: \<open>jsval\<close> is a JSON value,
  plus \<open>undefined\<close> (what a missing property reads as).
\<close>

datatype jsval =
    JUndefined
  | JNull
  | JBool bool
  | JNum rat
  | JStr string
  | JArr "jsval list"
  | JObj "(string \<times> jsval) list"

datatype error =
    Error string
  | TypeError string
  | ModuleNotFound string
  | RestError nat string

text \<open>\<open>!v\<close> is \<open>\<not> truthy v\<close>.\<close>

fun truthy :: "jsval \<Rightarrow> bool" where
  "truthy JUndefined = False"
| "truthy JNull = False"
| "truthy (JBool b) = b"
| "truthy (JNum n) = (n \<noteq> 0)"
| "truthy (JStr s) = (s \<noteq> [])"
| "truthy (JArr xs) = True"
| "truthy (JObj kvs) = True"

text \<open>
  Property access \<open>v[k]\<close> for the two keys the script reads (\<open>value\<close> and
  \<open>name\<close>, neither of which is a built-in property of a string, number, boolean or
  array): it raises on \<open>undefined\<close> and \<open>null\<close>, reads an object's own property (the
  last one of that name, as JSON parsing keeps it) and is \<open>undefined\<close> otherwise.
\<close>

fun get_prop :: "jsval \<Rightarrow> string \<Rightarrow> error + jsval" where
  "get_prop JUndefined k = Inl (TypeError (''Cannot read properties of undefined (reading '' @ k @ '')''))"
| "get_prop JNull k = Inl (TypeError (''Cannot read properties of null (reading '' @ k @ '')''))"
| "get_prop (JObj kvs) k = (case map_of (rev kvs) k of None \<Rightarrow> Inr JUndefined | Some v \<Rightarrow> Inr v)"
| "get_prop v k = Inr JUndefined"

subsection \<open>Results of the client library\<close>

record search_index =
  name :: string

record indexing_result =
  key :: string
  succeeded :: bool
  statusCode :: nat

record index_documents_result =
  results :: "indexing_result list"

text \<open>
  The result list of a search is an asynchronous iterator: it yields finitely many
  results and then ends, or rejects while a later page is fetched.
\<close>

datatype 'a async_iter = Done | Yield 'a "'a async_iter" | Reject error

record search_result =
  score :: rat
  document :: jsval

record search_documents_result =
  count :: "nat option"
  results_iter :: "search_result async_iter"

record hotel =
  HotelId :: string
  HotelName :: string
  other_fields :: "(string \<times> jsval) list"

text \<open>
  The client library and the service behind it. \<open>odata\<close> is the library's tagged
  template (called with the template's literal parts and its interpolated values); the
  other fields give the outcome of each request: \<open>Inl e\<close> when the promise rejects
  with \<open>e\<close>. Every request of one run differs from the others in its operation or its
  arguments, so a function of the arguments leaves the service's answers unconstrained.
  Constructing the two clients sends nothing and is taken not to raise; a request is
  given the values of its arguments and has no access to the objects of the script.
\<close>

record sdk =
  odata :: "string list \<Rightarrow> jsval list \<Rightarrow> string"
  deleteIndex :: "jsval \<Rightarrow> error + unit"
  createIndex :: "jsval \<Rightarrow> error + search_index"
  mergeOrUploadDocuments :: "jsval \<Rightarrow> error + index_documents_result"
  getDocumentsCount :: "error + nat"
  search :: "string \<Rightarrow> jsval \<Rightarrow> error + search_documents_result"
  getDocument :: "string \<Rightarrow> error + hotel"

subsection \<open>Trace, store and the script monad\<close>

datatype call =
    DeleteIndex jsval
  | CreateIndex jsval
  | MergeOrUploadDocuments jsval
  | Sleep nat
  | GetDocumentsCount
  | Search string jsval
  | NextResult
  | GetDocument string

datatype status = Fulfilled | Rejected error

text \<open>
  A console line is a list of pieces: literal text, a value interpolated into a template
  literal, or the \<open>JSON.stringify\<close> of a value.
\<close>

datatype piece = Lit string | Show jsval | Json jsval

datatype event =
    Log "piece list"
  | LogError string error
  | Invoke call
  | Settle call status
  | Uncaught error

text \<open>
  The store holds the arrays and object literals \<open>sendQueries\<close> builds. A property of
  an object literal is a primitive value or a reference to another object of the store.
\<close>

type_synonym addr = nat

datatype field = Prim jsval | Ref addr

datatype obj = ArrayObj "jsval list" | RecordObj "(string \<times> field) list"

record state =
  trace :: "event list"
  heap :: "obj list"

type_synonym 'a script = "state \<Rightarrow> (error + 'a) \<times> state"

definition init :: state where
  "init = \<lparr>trace = [], heap = []\<rparr>"

definition throwM :: "error \<Rightarrow> 'a script" where
  "throwM e s = (Inl e, s)"

definition bindM :: "'a script \<Rightarrow> ('a \<Rightarrow> 'b script) \<Rightarrow> 'b script" where
  "bindM m f s = (case m s of (Inl e, s') \<Rightarrow> (Inl e, s') | (Inr x, s') \<Rightarrow> f x s')"

definition thenM :: "'a script \<Rightarrow> 'b script \<Rightarrow> 'b script" where
  "thenM m n = bindM m (\<lambda>_. n)"

definition try_catch :: "'a script \<Rightarrow> 'a script \<Rightarrow> 'a script" where
  \<comment> \<open>\<open>try { m } catch { h }\<close>: the handler does not bind the error\<close>
  "try_catch m h s = (case m s of (Inl e, s') \<Rightarrow> h s' | (Inr x, s') \<Rightarrow> (Inr x, s'))"

definition liftE :: "error + 'a \<Rightarrow> 'a script" where
  \<comment> \<open>an expression that may raise, evaluated without any effect\<close>
  "liftE r s = (r, s)"

definition emit :: "event \<Rightarrow> unit script" where
  "emit ev s = (Inr (), s\<lparr>trace := trace s @ [ev]\<rparr>)"

definition console_log :: "piece list \<Rightarrow> unit script" where
  "console_log ps = emit (Log ps)"

definition status_of :: "error + 'a \<Rightarrow> status" where
  "status_of r = (case r of Inl e \<Rightarrow> Rejected e | Inr _ \<Rightarrow> Fulfilled)"

text \<open>
  A call of the library returns a promise: the operation is started, and it settles
  later, with a value or with a rejection. Awaiting a promise suspends the script until
  the promise settles; the script then resumes with the value or raises the rejection.
  A script may start several operations before it awaits any of them.
  \<open>await f(args)\<close>, the form every call of this script has, starts the operation
  and awaits it at once.
\<close>

record 'a promise =
  operation :: call
  outcome :: "error + 'a"

definition start :: "call \<Rightarrow> error + 'a \<Rightarrow> 'a promise script" where
  "start c r s = (Inr \<lparr>operation = c, outcome = r\<rparr>, s\<lparr>trace := trace s @ [Invoke c]\<rparr>)"

definition settle :: "'a promise \<Rightarrow> 'a script" where
  "settle p s =
     (outcome p, s\<lparr>trace := trace s @ [Settle (operation p) (status_of (outcome p))]\<rparr>)"

definition await :: "call \<Rightarrow> error + 'a \<Rightarrow> 'a script" where
  "await c r = bindM (start c r) settle"

definition alloc :: "obj \<Rightarrow> addr script" where
  "alloc ob s = (Inr (length (heap s)), s\<lparr>heap := heap s @ [ob]\<rparr>)"

text \<open>
  Assignment to an object of the store (\<open>o.p = v\<close>, \<open>a[i] = v\<close>). The script
  contains no assignment to an object it has built.
\<close>

definition assign :: "addr \<Rightarrow> obj \<Rightarrow> unit script" where
  "assign a ob s = (Inr (), s\<lparr>heap := (heap s)[a := ob]\<rparr>)"

definition lookup :: "obj list \<Rightarrow> addr \<Rightarrow> obj option" where
  "lookup h a = (if a < length h then Some (h ! a) else None)"

text \<open>The value an object of the store has when it is passed to the library.\<close>

definition deref_field :: "obj list \<Rightarrow> field \<Rightarrow> jsval" where
  "deref_field h f =
     (case f of
        Prim v \<Rightarrow> v
      | Ref a \<Rightarrow> (case lookup h a of Some (ArrayObj xs) \<Rightarrow> JArr xs | _ \<Rightarrow> JUndefined))"

definition deref :: "obj list \<Rightarrow> addr \<Rightarrow> jsval" where
  "deref h a =
     (case lookup h a of
        Some (RecordObj kvs) \<Rightarrow> JObj (map (\<lambda>(k, f). (k, deref_field h f)) kvs)
      | Some (ArrayObj xs) \<Rightarrow> JArr xs
      | None \<Rightarrow> JUndefined)"

text \<open>\<open>for await (const result of it) body\<close>\<close>

fun for_await :: "'a async_iter \<Rightarrow> ('a \<Rightarrow> unit script) \<Rightarrow> unit script" where
  "for_await Done body = await NextResult (Inr ())"
| "for_await (Reject e) body = await NextResult (Inl e)"
| "for_await (Yield x it) body =
     thenM (await NextResult (Inr ())) (thenM (body x) (for_await it body))"

subsection \<open>The functions of the script\<close>

text \<open>\<open>sleep\<close> returns the promise of a timer, which never rejects; \<open>main\<close> awaits it.\<close>

definition sleep :: "nat \<Rightarrow> unit promise script" where
  "sleep ms = start (Sleep ms) (Inr ())"

definition deleteIndexIfExists :: "sdk \<Rightarrow> jsval \<Rightarrow> unit script" where
  "deleteIndexIfExists lib indexName =
     try_catch
       (thenM (await (DeleteIndex indexName) (deleteIndex lib indexName))
              (console_log [Lit ''Deleting index...'']))
       (console_log [Lit ''Index does not exist yet.''])"

definition indexing_result_json :: "indexing_result \<Rightarrow> jsval" where
  "indexing_result_json r =
     JObj [(''key'', JStr (key r)), (''succeeded'', JBool (succeeded r)),
           (''statusCode'', JNum (of_nat (statusCode r)))]"

definition index_documents_result_json :: "index_documents_result \<Rightarrow> jsval" where
  "index_documents_result_json r = JObj [(''results'', JArr (map indexing_result_json (results r)))]"

definition loadData :: "sdk \<Rightarrow> jsval \<Rightarrow> unit script" where
  "loadData lib hotels =
     thenM (console_log [Lit ''Uploading documents...''])
    (bindM (await (MergeOrUploadDocuments hotels) (mergeOrUploadDocuments lib hotels))
       (\<lambda>indexDocumentsResult.
     thenM (console_log [Json (index_documents_result_json indexDocumentsResult)])
       (case results indexDocumentsResult of
          [] \<Rightarrow> throwM (TypeError ''Cannot read properties of undefined (reading 'succeeded')'')
        | r # _ \<Rightarrow> console_log [Lit ''Index operations succeeded: '', Json (JBool (succeeded r))])))"

text \<open>
  \<open>searchClient.search(text, options)\<close> followed by the loop that prints every
  result: the statement pair each of the first four queries consists of. The library is
  handed the options object; what it sees is the object's value in the store at the call.
\<close>

definition search_call :: "sdk \<Rightarrow> string \<Rightarrow> addr \<Rightarrow> search_documents_result script" where
  "search_call lib text options s =
     await (Search text (deref (heap s) options)) (search lib text (deref (heap s) options)) s"

definition print_results :: "search_documents_result \<Rightarrow> unit script" where
  "print_results searchResults =
     for_await (results_iter searchResults) (\<lambda>result. console_log [Json (document result)])"

definition show_count :: "nat option \<Rightarrow> jsval" where
  "show_count c = (case c of None \<Rightarrow> JUndefined | Some n \<Rightarrow> JNum (of_nat n))"

definition sendQueries :: "sdk \<Rightarrow> unit script" where
  "sendQueries lib =
     thenM (console_log [Lit ''Query #1 - search everything:''])
    (bindM (alloc (ArrayObj [JStr ''HotelId'', JStr ''HotelName'', JStr ''Rating''])) (\<lambda>selectFields.
     bindM (alloc (RecordObj [(''includeTotalCount'', Prim (JBool True)),
                              (''select'', Ref selectFields)])) (\<lambda>searchOptions1.
     bindM (search_call lib ''*'' searchOptions1) (\<lambda>searchResults.
     thenM (print_results searchResults)
    (thenM (console_log [Lit ''Result count: '', Show (show_count (count searchResults))])
    (thenM (console_log [])
    (thenM (console_log [Lit ''Query #2 - search with filter, orderBy, and select:''])
    (let state = ''FL'' in
     bindM (alloc (ArrayObj [JStr ''Rating desc''])) (\<lambda>orderBy.
     bindM (alloc (RecordObj [(''filter'', Prim (JStr (odata lib [''Address/StateProvince eq '', ''''] [JStr state]))),
                              (''orderBy'', Ref orderBy),
                              (''select'', Ref selectFields)])) (\<lambda>searchOptions2.
     bindM (search_call lib ''wifi'' searchOptions2) (\<lambda>searchResults.
     thenM (print_results searchResults)
    (thenM (console_log [])
    (thenM (console_log [Lit ''Query #3 - limit searchFields:''])
    (bindM (alloc (ArrayObj [JStr ''HotelName''])) (\<lambda>searchFields.
     bindM (alloc (RecordObj [(''select'', Ref selectFields),
                              (''searchFields'', Ref searchFields)])) (\<lambda>searchOptions3.
     bindM (search_call lib ''sublime cliff'' searchOptions3) (\<lambda>searchResults.
     thenM (print_results searchResults)
    (thenM (console_log [])
    (thenM (console_log [Lit ''Query #4 - limit searchFields and use facets:''])
    (bindM (alloc (ArrayObj [JStr ''Category''])) (\<lambda>facets.
     bindM (alloc (ArrayObj [JStr ''HotelName''])) (\<lambda>searchFields.
     bindM (alloc (RecordObj [(''facets'', Ref facets),
                              (''select'', Ref selectFields),
                              (''searchFields'', Ref searchFields)])) (\<lambda>searchOptions4.
     bindM (search_call lib ''*'' searchOptions4) (\<lambda>searchResults.
     thenM (print_results searchResults)
    (thenM (console_log [])
    (thenM (console_log [Lit ''Query #5 - Lookup document:''])
    (bindM (await (GetDocument ''3'') (getDocument lib ''3'')) (\<lambda>documentResult.
     thenM (console_log [Lit ''HotelId: '', Show (JStr (HotelId documentResult)),
                         Lit ''; HotelName: '', Show (JStr (HotelName documentResult))])
           (console_log [])))))))))))))))))))))))))))))"

definition main :: "sdk \<Rightarrow> string \<Rightarrow> string \<Rightarrow> jsval \<Rightarrow> jsval \<Rightarrow> unit script" where
  "main lib endpoint apiKey hotels hotelIndexDefinition =
     thenM (console_log [Lit ''Running Azure AI Search Javascript quickstart...''])
      (if endpoint = [] \<or> apiKey = [] then
         console_log [Lit ''Make sure to set valid values for endpoint and apiKey with proper authorization.'']
       else
         bindM (liftE (get_prop hotelIndexDefinition ''name'')) (\<lambda>indexName.
         thenM (console_log [Lit ''Checking if index exists...''])
        (thenM (deleteIndexIfExists lib indexName)
        (thenM (console_log [Lit ''Creating index...''])
        (bindM (await (CreateIndex hotelIndexDefinition) (createIndex lib hotelIndexDefinition)) (\<lambda>index.
         thenM (console_log [Lit ''Index named '', Show (JStr (name index)), Lit '' has been created.''])
        (thenM (loadData lib hotels)
        (thenM (bindM (sleep 1000) settle)
        (bindM (await GetDocumentsCount (getDocumentsCount lib)) (\<lambda>documentCount.
         thenM (console_log [Show (JNum (of_nat documentCount)), Lit '' docs uploaded''])
        (thenM (console_log [Lit ''Querying the index...''])
        (thenM (console_log [])
               (sendQueries lib)))))))))))))"

subsection \<open>The module's top level\<close>

text \<open>
  The process environment after the \<open>.env\<close> file has been loaded: each variable is
  unset (\<open>None\<close>) or a string. \<open>process.env.X || ""\<close> is the variable's value when it
  is set and not empty, and the empty string otherwise.
\<close>

record env =
  SEARCH_API_ENDPOINT :: "string option"
  SEARCH_API_KEY :: "string option"

definition or_empty :: "string option \<Rightarrow> string" where
  "or_empty v = (case v of None \<Rightarrow> [] | Some x \<Rightarrow> (if x \<noteq> [] then x else []))"

text \<open>
  What a run of the process shows: its console and remote-call trace, and its exit code.
  The script never assigns an exit code and never calls an exit function, so the code is
  the run time's: 1 when an exception escapes the module's top level (the run time
  reports it, the event \<open>Uncaught\<close>), 0 when the top level and all it has started
  have finished.
\<close>

record run =
  exitCode :: nat
  observed :: "event list"

definition uncaught :: "error \<Rightarrow> run" where
  "uncaught e = \<lparr>exitCode = 1, observed = [Uncaught e]\<rparr>"

text \<open>An imported JSON file that does not exist fails the import.\<close>

definition import_json :: "string \<Rightarrow> jsval option \<Rightarrow> error + jsval" where
  "import_json path file = (case file of None \<Rightarrow> Inl (ModuleNotFound path) | Some v \<Rightarrow> Inr v)"

text \<open>
  \<open>main().catch((err) => { console.error("The sample encountered an error:", err); })\<close>:
  the handler prints the error and returns, so the promise chain ends fulfilled.
\<close>

definition main_catch :: "unit script \<Rightarrow> run" where
  "main_catch m =
     (case m init of
        (Inl err, s) \<Rightarrow>
          \<lparr>exitCode = 0, observed = trace s @ [LogError ''The sample encountered an error:'' err]\<rparr>
      | (Inr _, s) \<Rightarrow> \<lparr>exitCode = 0, observed = trace s\<rparr>)"

definition program :: "env \<Rightarrow> jsval option \<Rightarrow> jsval option \<Rightarrow> sdk \<Rightarrow> run" where
  "program e hotels_json index_json lib =
     (case import_json ''./hotels.json'' hotels_json of
        Inl err \<Rightarrow> uncaught err
      | Inr hotelData \<Rightarrow>
     (case import_json ''./hotels_quickstart_index.json'' index_json of
        Inl err \<Rightarrow> uncaught err
      | Inr indexDefinition \<Rightarrow>
        if \<not> truthy hotelData \<or> \<not> truthy indexDefinition then
          uncaught (Error ''Make sure to set valid values for hotelData and indexDefinition.'')
        else
         (case get_prop hotelData ''value'' of
            Inl err \<Rightarrow> uncaught err
          | Inr hotels \<Rightarrow>
              main_catch (main lib (or_empty (SEARCH_API_ENDPOINT e)) (or_empty (SEARCH_API_KEY e))
                               hotels indexDefinition))))"

subsection \<open>Observations on a run\<close>

text \<open>What the printing loop adds to the trace for a result iterator, and how it ends.\<close>

fun iter_trace :: "search_result async_iter \<Rightarrow> event list" where
  "iter_trace Done = [Invoke NextResult, Settle NextResult Fulfilled]"
| "iter_trace (Reject e) = [Invoke NextResult, Settle NextResult (Rejected e)]"
| "iter_trace (Yield x it) =
     [Invoke NextResult, Settle NextResult Fulfilled, Log [Json (document x)]] @ iter_trace it"

fun iter_outcome :: "'a async_iter \<Rightarrow> error + unit" where
  "iter_outcome Done = Inr ()"
| "iter_outcome (Reject e) = Inl e"
| "iter_outcome (Yield x it) = iter_outcome it"

text \<open>
  The steps of a run: the operations it started, in the order it started them, leaving
  out the fetches of the printing loops (they belong to the query being printed).
\<close>

fun steps :: "event list \<Rightarrow> call list" where
  "steps [] = []"
| "steps (Invoke NextResult # es) = steps es"
| "steps (Invoke c # es) = c # steps es"
| "steps (ev # es) = steps es"

text \<open>The rejected operations of a run, with the error each was rejected with.\<close>

fun rejections :: "event list \<Rightarrow> (call \<times> error) list" where
  "rejections [] = []"
| "rejections (Settle c (Rejected e) # es) = (c, e) # rejections es"
| "rejections (ev # es) = rejections es"

text \<open>
  No two operations overlap: every operation that is started settles before anything
  else happens.
\<close>

fun awaited_in_turn :: "event list \<Rightarrow> bool" where
  "awaited_in_turn [] = True"
| "awaited_in_turn (Invoke c # Settle c' st # es) = (c = c' \<and> awaited_in_turn es)"
| "awaited_in_turn (Invoke c # es) = False"
| "awaited_in_turn (Settle c st # es) = False"
| "awaited_in_turn (ev # es) = awaited_in_turn es"

text \<open>The five queries of the specification, as requests to the library.\<close>

definition selectFields_value :: jsval where
  "selectFields_value = JArr [JStr ''HotelId'', JStr ''HotelName'', JStr ''Rating'']"

definition five_queries :: "sdk \<Rightarrow> call list" where
  "five_queries lib =
     [Search ''*'' (JObj [(''includeTotalCount'', JBool True), (''select'', selectFields_value)]),
      Search ''wifi'' (JObj [(''filter'', JStr (odata lib [''Address/StateProvince eq '', ''''] [JStr ''FL''])),
                             (''orderBy'', JArr [JStr ''Rating desc'']),
                             (''select'', selectFields_value)]),
      Search ''sublime cliff'' (JObj [(''select'', selectFields_value),
                                      (''searchFields'', JArr [JStr ''HotelName''])]),
      Search ''*'' (JObj [(''facets'', JArr [JStr ''Category'']),
                          (''select'', selectFields_value),
                          (''searchFields'', JArr [JStr ''HotelName''])]),
      GetDocument ''3'']"

text \<open>
  A search of the plan succeeds: the request is fulfilled and its result iterator ends
  without rejecting. (A request that is not a search is not constrained.)
\<close>

definition search_ok :: "sdk \<Rightarrow> call \<Rightarrow> bool" where
  "search_ok lib c =
     (case c of
        Search t opts \<Rightarrow>
          (case search lib t opts of
             Inl e \<Rightarrow> False
           | Inr r \<Rightarrow> iter_outcome (results_iter r) = Inr ())
      | _ \<Rightarrow> True)"

text \<open>The specification's linear control flow, for a configured run.\<close>

definition spec_steps :: "sdk \<Rightarrow> jsval \<Rightarrow> jsval \<Rightarrow> jsval \<Rightarrow> call list" where
  "spec_steps lib indexName hotelIndexDefinition hotels =
     [DeleteIndex indexName, CreateIndex hotelIndexDefinition, MergeOrUploadDocuments hotels,
      Sleep 1000, GetDocumentsCount] @ five_queries lib"

text \<open>
  The same control flow with every query taken to its completion: all the operations a
  run starts, the fetches of the printing loops included. A search is complete when its
  request has settled and its results have been fetched to the end of the iterator (one
  fetch for each result, and the one that finds the end or is rejected); only then does
  the next query begin.
\<close>

fun calls :: "event list \<Rightarrow> call list" where
  "calls [] = []"
| "calls (Invoke c # es) = c # calls es"
| "calls (ev # es) = calls es"

fun iter_fetches :: "'a async_iter \<Rightarrow> call list" where
  "iter_fetches Done = [NextResult]"
| "iter_fetches (Reject e) = [NextResult]"
| "iter_fetches (Yield x it) = NextResult # iter_fetches it"

definition fetches :: "sdk \<Rightarrow> call \<Rightarrow> call list" where
  "fetches lib c =
     (case c of
        Search t opts \<Rightarrow>
          (case search lib t opts of
             Inl e \<Rightarrow> []
           | Inr r \<Rightarrow> iter_fetches (results_iter r))
      | _ \<Rightarrow> [])"

definition query_calls :: "sdk \<Rightarrow> call list" where
  "query_calls lib = concat (map (\<lambda>q. q # fetches lib q) (five_queries lib))"

definition spec_calls :: "sdk \<Rightarrow> jsval \<Rightarrow> jsval \<Rightarrow> jsval \<Rightarrow> call list" where
  "spec_calls lib indexName hotelIndexDefinition hotels =
     [DeleteIndex indexName, CreateIndex hotelIndexDefinition, MergeOrUploadDocuments hotels,
      Sleep 1000, GetDocumentsCount] @ query_calls lib"

text \<open>
  The objects \<open>sendQueries\<close> builds, in the order it builds them, when the store
  holds \<open>base\<close> objects on entry: the select array, then for each search query the
  arrays of its options and its options object.
\<close>

definition allocations :: "sdk \<Rightarrow> addr \<Rightarrow> obj list" where
  "allocations lib base =
     [ArrayObj [JStr ''HotelId'', JStr ''HotelName'', JStr ''Rating''],
      RecordObj [(''includeTotalCount'', Prim (JBool True)), (''select'', Ref base)],
      ArrayObj [JStr ''Rating desc''],
      RecordObj [(''filter'', Prim (JStr (odata lib [''Address/StateProvince eq '', ''''] [JStr ''FL'']))),
                 (''orderBy'', Ref (base + 2)), (''select'', Ref base)],
      ArrayObj [JStr ''HotelName''],
      RecordObj [(''select'', Ref base), (''searchFields'', Ref (base + 4))],
      ArrayObj [JStr ''Category''],
      ArrayObj [JStr ''HotelName''],
      RecordObj [(''facets'', Ref (base + 6)), (''select'', Ref base), (''searchFields'', Ref (base + 7))]]"

text \<open>The places of the four options objects in that list.\<close>

definition option_cells :: "nat list" where
  "option_cells = [1, 3, 5, 8]"

text \<open>
  Sharing in the store: the objects an object literal refers to, and whether two
  different object literals of a store refer to a common object.
\<close>

fun refs_of :: "obj \<Rightarrow> addr list" where
  "refs_of (ArrayObj xs) = []"
| "refs_of (RecordObj kvs) = concat (map (\<lambda>(k, f). case f of Ref a \<Rightarrow> [a] | Prim v \<Rightarrow> []) kvs)"

definition shares_state :: "obj list \<Rightarrow> addr \<Rightarrow> addr \<Rightarrow> bool" where
  "shares_state h a b =
     (a < length h \<and> b < length h \<and> a \<noteq> b \<and> set (refs_of (h ! a)) \<inter> set (refs_of (h ! b)) \<noteq> {})"

text \<open>A bundled JSON document that is missing or yields no value.\<close>

definition no_value :: "jsval option \<Rightarrow> bool" where
  "no_value file = (case file of None \<Rightarrow> True | Some v \<Rightarrow> \<not> truthy v)"

subsection \<open>A concrete service, for running the model\<close>

definition demo_index :: jsval where
  "demo_index = JObj [(''name'', JStr ''hotels-quickstart''), (''fields'', JArr []), (''suggesters'', JArr [])]"

definition demo_records :: jsval where
  "demo_records = JArr [JObj [(''HotelId'', JStr ''3''), (''HotelName'', JStr ''Gastronomic Landscape Hotel'')]]"

definition demo_hotels :: jsval where
  "demo_hotels = JObj [(''value'', demo_records)]"

definition demo_env :: env where
  "demo_env = \<lparr>SEARCH_API_ENDPOINT = Some ''https://demo.search.windows.net'', SEARCH_API_KEY = Some ''key''\<rparr>"

definition demo_hit :: search_result where
  "demo_hit = \<lparr>score = 1, document = JObj [(''HotelId'', JStr ''3''), (''HotelName'', JStr ''Gastronomic Landscape Hotel''), (''Rating'', JNum 4)]\<rparr>"

text \<open>Every request is fulfilled.\<close>

definition demo_sdk :: sdk where
  "demo_sdk =
     \<lparr>odata = (\<lambda>strings vals. ''Address/StateProvince eq '' @ [CHR 0x27] @ ''FL'' @ [CHR 0x27]),
      deleteIndex = (\<lambda>n. Inr ()),
      createIndex = (\<lambda>d. Inr \<lparr>name = ''hotels-quickstart''\<rparr>),
      mergeOrUploadDocuments = (\<lambda>docs. Inr \<lparr>results = [\<lparr>key = ''3'', succeeded = True, statusCode = 201\<rparr>]\<rparr>),
      getDocumentsCount = Inr 1,
      search = (\<lambda>text options. Inr \<lparr>count = Some 1, results_iter = Yield demo_hit Done\<rparr>),
      getDocument = (\<lambda>k. Inr \<lparr>HotelId = ''3'', HotelName = ''Gastronomic Landscape Hotel'', other_fields = []\<rparr>)\<rparr>"

subsection \<open>Properties of scripts\<close>

text \<open>
  Properties that every script built from the primitives has, stated for all states so
  that they compose along \<open>bindM\<close>: the trace only grows; operations settle in turn;
  a rejection that is not an index deletion's is the error the script raises; and, for a
  script run from a store \<open>H\<close>, the operations it starts follow a plan \<open>L\<close> and
  its allocations a list \<open>A\<close>, as far as it gets, and to the end when it returns.
  The second does not hold of a script that starts an operation and does not await it at
  once.
\<close>

definition is_delete :: "call \<Rightarrow> bool" where
  "is_delete c = (case c of DeleteIndex n \<Rightarrow> True | _ \<Rightarrow> False)"

definition grows :: "'a script \<Rightarrow> bool" where
  "grows m = (\<forall>s. prefix (trace s) (trace (snd (m s))))"

definition in_turn :: "'a script \<Rightarrow> bool" where
  "in_turn m = (\<forall>s. awaited_in_turn (trace s) \<longrightarrow> awaited_in_turn (trace (snd (m s))))"

definition propagating :: "'a script \<Rightarrow> bool" where
  "propagating m =
     (\<forall>s. \<exists>es. rejections (trace (snd (m s))) = rejections (trace s) @ es \<and>
                (\<forall>ce \<in> set es. is_delete (fst ce) \<or> fst (m s) = Inl (snd ce)))"

definition follows :: "'a script \<Rightarrow> call list \<Rightarrow> obj list \<Rightarrow> obj list \<Rightarrow> bool" where
  "follows k L A H =
     (\<forall>T. \<exists>i j. calls (trace (snd (k \<lparr>trace = T, heap = H\<rparr>))) = calls T @ take i L \<and>
                  heap (snd (k \<lparr>trace = T, heap = H\<rparr>)) = H @ take j A \<and>
                  (\<not> isl (fst (k \<lparr>trace = T, heap = H\<rparr>)) \<longrightarrow> length L \<le> i \<and> length A \<le> j))"

text \<open>
  Variants of the service in which requests fail: a key that may not change indexes, an
  upload answered with no per-record result, a document that is not there, a key that is
  not accepted.
\<close>

definition forbidden_sdk :: sdk where
  "forbidden_sdk = demo_sdk\<lparr>deleteIndex := (\<lambda>n. Inl (RestError 403 ''Forbidden'')),
                              createIndex := (\<lambda>d. Inl (RestError 403 ''Forbidden''))\<rparr>"

definition empty_upload_sdk :: sdk where
  "empty_upload_sdk = demo_sdk\<lparr>mergeOrUploadDocuments := (\<lambda>docs. Inr \<lparr>results = []\<rparr>)\<rparr>"

definition missing_document_sdk :: sdk where
  "missing_document_sdk = demo_sdk\<lparr>getDocument := (\<lambda>k. Inl (RestError 404 ''Document not found''))\<rparr>"

definition unauthorized_sdk :: sdk where
  "unauthorized_sdk = demo_sdk\<lparr>deleteIndex := (\<lambda>n. Inl (RestError 401 ''Unauthorized''))\<rparr>"


section \<open>Running the script\<close>

subsection \<open>Running the primitives\<close>

lemma run_liftE: "bindM (liftE r) f s = (case r of Inl e \<Rightarrow> (Inl e, s) | Inr x \<Rightarrow> f x s)"
  by (simp add: bindM_def liftE_def split: sum.splits)

lemma run_throw: "throwM e s = (Inl e, s)"
  by (simp add: throwM_def)

lemma await_run: "await c r s = (r, s\<lparr>trace := trace s @ [Invoke c, Settle c (status_of r)]\<rparr>)"
  by (simp add: await_def bindM_def start_def settle_def)

lemma awaited_sleep: "bindM (sleep ms) settle = await (Sleep ms) (Inr ())"
  by (simp add: sleep_def await_def)

lemma run_log: "thenM (console_log ps) n \<lparr>trace = T, heap = H\<rparr> = n \<lparr>trace = T @ [Log ps], heap = H\<rparr>"
  by (simp add: thenM_def bindM_def console_log_def emit_def)

lemma run_log_last: "console_log ps \<lparr>trace = T, heap = H\<rparr> = (Inr (), \<lparr>trace = T @ [Log ps], heap = H\<rparr>)"
  by (simp add: console_log_def emit_def)

lemma run_alloc: "bindM (alloc ob) f \<lparr>trace = T, heap = H\<rparr> = f (length H) \<lparr>trace = T, heap = H @ [ob]\<rparr>"
  by (simp add: bindM_def alloc_def)

lemma run_await: "bindM (await c r) f \<lparr>trace = T, heap = H\<rparr> =
   (case r of Inl e \<Rightarrow> (Inl e, \<lparr>trace = T @ [Invoke c, Settle c (Rejected e)], heap = H\<rparr>)
            | Inr x \<Rightarrow> f x \<lparr>trace = T @ [Invoke c, Settle c Fulfilled], heap = H\<rparr>)"
  by (simp add: bindM_def await_run status_of_def split: sum.splits)

lemma run_await_then: "thenM (await c r) n \<lparr>trace = T, heap = H\<rparr> =
   (case r of Inl e \<Rightarrow> (Inl e, \<lparr>trace = T @ [Invoke c, Settle c (Rejected e)], heap = H\<rparr>)
            | Inr x \<Rightarrow> n \<lparr>trace = T @ [Invoke c, Settle c Fulfilled], heap = H\<rparr>)"
  by (simp add: thenM_def run_await)

lemma run_sleep: "thenM (bindM (sleep ms) settle) n \<lparr>trace = T, heap = H\<rparr> =
   n \<lparr>trace = T @ [Invoke (Sleep ms), Settle (Sleep ms) Fulfilled], heap = H\<rparr>"
  by (simp add: awaited_sleep run_await_then)

lemma run_search: "bindM (search_call lib t a) f \<lparr>trace = T, heap = H\<rparr> =
   (case search lib t (deref H a) of
      Inl e \<Rightarrow> (Inl e, \<lparr>trace = T @ [Invoke (Search t (deref H a)), Settle (Search t (deref H a)) (Rejected e)], heap = H\<rparr>)
    | Inr x \<Rightarrow> f x \<lparr>trace = T @ [Invoke (Search t (deref H a)), Settle (Search t (deref H a)) Fulfilled], heap = H\<rparr>)"
  by (simp add: bindM_def search_call_def await_run status_of_def split: sum.splits)

lemma for_await_run: "for_await it (\<lambda>result. console_log [Json (document result)]) \<lparr>trace = T, heap = H\<rparr>
   = (iter_outcome it, \<lparr>trace = T @ iter_trace it, heap = H\<rparr>)"
  by (induction it arbitrary: T) (simp_all add: await_run status_of_def run_await_then run_log)

lemma run_print: "thenM (print_results sr) n \<lparr>trace = T, heap = H\<rparr> =
   (case iter_outcome (results_iter sr) of
      Inl e \<Rightarrow> (Inl e, \<lparr>trace = T @ iter_trace (results_iter sr), heap = H\<rparr>)
    | Inr x \<Rightarrow> n \<lparr>trace = T @ iter_trace (results_iter sr), heap = H\<rparr>)"
  by (simp add: thenM_def bindM_def print_results_def for_await_run split: sum.splits)

lemma deleteIndexIfExists_run:
  "deleteIndexIfExists lib n \<lparr>trace = T, heap = H\<rparr> =
     (Inr (), \<lparr>trace = T @ [Invoke (DeleteIndex n), Settle (DeleteIndex n) (status_of (deleteIndex lib n)),
                  Log [Lit (case deleteIndex lib n of Inl e \<Rightarrow> ''Index does not exist yet.''
                                                   | Inr u \<Rightarrow> ''Deleting index...'')]], heap = H\<rparr>)"
  by (simp add: deleteIndexIfExists_def try_catch_def run_await_then run_log_last status_of_def
           split: sum.splits)

lemma run_delete:
  "thenM (deleteIndexIfExists lib n) k \<lparr>trace = T, heap = H\<rparr> =
     k \<lparr>trace = T @ [Invoke (DeleteIndex n), Settle (DeleteIndex n) (status_of (deleteIndex lib n)),
                  Log [Lit (case deleteIndex lib n of Inl e \<Rightarrow> ''Index does not exist yet.''
                                                   | Inr u \<Rightarrow> ''Deleting index...'')]], heap = H\<rparr>"
  by (simp add: thenM_def bindM_def deleteIndexIfExists_run)

lemma loadData_run:
  "loadData lib hotels \<lparr>trace = T, heap = H\<rparr> =
     (case mergeOrUploadDocuments lib hotels of
        Inl e \<Rightarrow> (Inl e, \<lparr>trace = T @ [Log [Lit ''Uploading documents...''],
                        Invoke (MergeOrUploadDocuments hotels),
                        Settle (MergeOrUploadDocuments hotels) (Rejected e)], heap = H\<rparr>)
      | Inr r \<Rightarrow>
         (case results r of
            [] \<Rightarrow> (Inl (TypeError ''Cannot read properties of undefined (reading 'succeeded')''),
                   \<lparr>trace = T @ [Log [Lit ''Uploading documents...''],
                        Invoke (MergeOrUploadDocuments hotels),
                        Settle (MergeOrUploadDocuments hotels) Fulfilled,
                        Log [Json (index_documents_result_json r)]], heap = H\<rparr>)
          | x # xs \<Rightarrow> (Inr (),
                   \<lparr>trace = T @ [Log [Lit ''Uploading documents...''],
                        Invoke (MergeOrUploadDocuments hotels),
                        Settle (MergeOrUploadDocuments hotels) Fulfilled,
                        Log [Json (index_documents_result_json r)],
                        Log [Lit ''Index operations succeeded: '', Json (JBool (succeeded x))]], heap = H\<rparr>)))"
  by (simp add: loadData_def run_log run_await run_throw run_log_last split: sum.splits list.splits)

lemma run_loadData:
  "thenM (loadData lib hotels) k \<lparr>trace = T, heap = H\<rparr> =
     (case mergeOrUploadDocuments lib hotels of
        Inl e \<Rightarrow> (Inl e, \<lparr>trace = T @ [Log [Lit ''Uploading documents...''],
                        Invoke (MergeOrUploadDocuments hotels),
                        Settle (MergeOrUploadDocuments hotels) (Rejected e)], heap = H\<rparr>)
      | Inr r \<Rightarrow>
         (case results r of
            [] \<Rightarrow> (Inl (TypeError ''Cannot read properties of undefined (reading 'succeeded')''),
                   \<lparr>trace = T @ [Log [Lit ''Uploading documents...''],
                        Invoke (MergeOrUploadDocuments hotels),
                        Settle (MergeOrUploadDocuments hotels) Fulfilled,
                        Log [Json (index_documents_result_json r)]], heap = H\<rparr>)
          | x # xs \<Rightarrow> k
                   \<lparr>trace = T @ [Log [Lit ''Uploading documents...''],
                        Invoke (MergeOrUploadDocuments hotels),
                        Settle (MergeOrUploadDocuments hotels) Fulfilled,
                        Log [Json (index_documents_result_json r)],
                        Log [Lit ''Index operations succeeded: '', Json (JBool (succeeded x))]], heap = H\<rparr>))"
  by (simp add: thenM_def bindM_def loadData_run split: sum.splits list.splits)

lemmas run_simps = run_liftE run_throw run_log run_log_last run_alloc run_await run_await_then
  run_sleep run_search run_print run_delete run_loadData

subsection \<open>Observations distribute over the trace\<close>

lemma steps_append: "steps (xs @ ys) = steps xs @ steps ys"
  by (induction xs rule: steps.induct) simp_all

lemma calls_append: "calls (xs @ ys) = calls xs @ calls ys"
  by (induction xs rule: calls.induct) simp_all

lemma calls_iter_trace: "calls (iter_trace it) = iter_fetches it"
  by (induction it) simp_all

lemma steps_calls: "steps tr = filter (\<lambda>c. c \<noteq> NextResult) (calls tr)"
  by (induction tr rule: steps.induct) simp_all

lemma steps_iter_trace: "steps (iter_trace it) = []"
  by (induction it) simp_all

lemma rejections_append: "rejections (xs @ ys) = rejections xs @ rejections ys"
  by (induction xs rule: rejections.induct) simp_all

lemma rejections_iter_trace:
  "rejections (iter_trace it) = (case iter_outcome it of Inl e \<Rightarrow> [(NextResult, e)] | Inr u \<Rightarrow> [])"
  by (induction it) simp_all

lemma awaited_in_turn_append:
  "awaited_in_turn xs \<Longrightarrow> awaited_in_turn (xs @ ys) = awaited_in_turn ys"
  by (induction xs rule: awaited_in_turn.induct) simp_all

lemma awaited_in_turn_iter_trace: "awaited_in_turn (iter_trace it)"
  by (induction it) simp_all

lemma rejections_mem: "(c, e) \<in> set (rejections tr) \<longleftrightarrow> Settle c (Rejected e) \<in> set tr"
  by (induction tr rule: rejections.induct) auto

subsection \<open>grows\<close>

lemma bindM_cases:
  obtains (raise) e s' where "m s = (Inl e, s')" "bindM m f s = (Inl e, s')"
        | (returned) x s' where "m s = (Inr x, s')" "bindM m f s = f x s'"
proof (cases "m s")
  case (Pair r s')
  then show ?thesis
    by (cases r) (auto simp: bindM_def intro: raise returned)
qed

lemma grows_bind: "grows m \<Longrightarrow> (\<And>x. grows (f x)) \<Longrightarrow> grows (bindM m f)"
  unfolding grows_def
proof
  fix s
  assume m: "\<forall>s. prefix (trace s) (trace (snd (m s)))"
    and f: "\<And>x. \<forall>s. prefix (trace s) (trace (snd (f x s)))"
  show "prefix (trace s) (trace (snd (bindM m f s)))"
  proof (cases rule: bindM_cases[of m s f])
    case (raise e s')
    with m[rule_format, of s] show ?thesis by simp
  next
    case (returned x s')
    with m[rule_format, of s] f[of x, rule_format, of s'] show ?thesis
      by (auto intro: prefix_order.trans)
  qed
qed

lemma grows_then: "grows m \<Longrightarrow> grows n \<Longrightarrow> grows (thenM m n)"
  by (simp add: thenM_def grows_bind)

lemma grows_emit: "grows (emit ev)"
  by (simp add: grows_def emit_def)

lemma grows_log: "grows (console_log ps)"
  by (simp add: console_log_def grows_emit)

lemma grows_await: "grows (await c r)"
  by (simp add: grows_def await_run)

lemma grows_alloc: "grows (alloc ob)"
  by (simp add: grows_def alloc_def)

lemma grows_throw: "grows (throwM e)"
  by (simp add: grows_def throwM_def)

lemma grows_search_call: "grows (search_call lib t a)"
  by (simp add: grows_def search_call_def await_run)

lemma grows_for_await: "(\<And>x. grows (body x)) \<Longrightarrow> grows (for_await it body)"
  by (induction it) (simp_all add: grows_await grows_then)

lemma grows_print_results: "grows (print_results sr)"
  by (simp add: print_results_def grows_for_await grows_log)

lemma grows_loadData: "grows (loadData lib hotels)"
  unfolding loadData_def
  by (intro grows_then grows_bind grows_log grows_await) (simp add: grows_throw grows_log split: list.split)

lemma grows_sendQueries: "grows (sendQueries lib)"
  unfolding sendQueries_def Let_def
  by (intro grows_then grows_bind grows_log grows_await grows_alloc grows_search_call grows_print_results)

subsection \<open>in_turn\<close>

lemma in_turn_bind: "in_turn m \<Longrightarrow> (\<And>x. in_turn (f x)) \<Longrightarrow> in_turn (bindM m f)"
  unfolding in_turn_def
proof (intro allI impI)
  fix s :: state
  assume m: "\<forall>s. awaited_in_turn (trace s) \<longrightarrow> awaited_in_turn (trace (snd (m s)))"
    and f: "\<And>x. \<forall>s. awaited_in_turn (trace s) \<longrightarrow> awaited_in_turn (trace (snd (f x s)))"
    and s: "awaited_in_turn (trace s)"
  show "awaited_in_turn (trace (snd (bindM m f s)))"
  proof (cases rule: bindM_cases[of m s f])
    case (raise e s')
    with m s show ?thesis by (metis snd_conv)
  next
    case (returned x s')
    with m s have "awaited_in_turn (trace s')" by (metis snd_conv)
    with f[of x] returned show ?thesis by simp
  qed
qed

lemma in_turn_then: "in_turn m \<Longrightarrow> in_turn n \<Longrightarrow> in_turn (thenM m n)"
  by (simp add: thenM_def in_turn_bind)

lemma in_turn_log: "in_turn (console_log ps)"
  by (simp add: in_turn_def console_log_def emit_def awaited_in_turn_append)

lemma in_turn_await: "in_turn (await c r)"
  by (simp add: in_turn_def await_run awaited_in_turn_append)

lemma in_turn_alloc: "in_turn (alloc ob)"
  by (simp add: in_turn_def alloc_def)

lemma in_turn_throw: "in_turn (throwM e)"
  by (simp add: in_turn_def throwM_def)

lemma in_turn_liftE: "in_turn (liftE r)"
  by (simp add: in_turn_def liftE_def)

lemma in_turn_search_call: "in_turn (search_call lib t a)"
  by (simp add: in_turn_def search_call_def await_run awaited_in_turn_append)

lemma in_turn_for_await: "(\<And>x. in_turn (body x)) \<Longrightarrow> in_turn (for_await it body)"
  by (induction it) (simp_all add: in_turn_await in_turn_then)

lemma in_turn_print_results: "in_turn (print_results sr)"
  by (simp add: print_results_def in_turn_for_await in_turn_log)

lemma in_turn_delete: "in_turn (deleteIndexIfExists lib n)"
  unfolding in_turn_def
proof (intro allI impI)
  fix s :: state
  assume "awaited_in_turn (trace s)"
  then show "awaited_in_turn (trace (snd (deleteIndexIfExists lib n s)))"
    by (cases s) (simp add: deleteIndexIfExists_run awaited_in_turn_append)
qed

lemma in_turn_loadData: "in_turn (loadData lib hotels)"
  unfolding loadData_def
  by (intro in_turn_then in_turn_bind in_turn_log in_turn_await) (simp add: in_turn_throw in_turn_log split: list.split)

lemma in_turn_sendQueries: "in_turn (sendQueries lib)"
  unfolding sendQueries_def Let_def
  by (intro in_turn_then in_turn_bind in_turn_log in_turn_await in_turn_alloc in_turn_search_call in_turn_print_results)

lemma in_turn_main: "in_turn (main lib endpoint apiKey hotels hotelIndexDefinition)"
  unfolding main_def awaited_sleep
  by (intro in_turn_then in_turn_log)
     (auto intro!: in_turn_then in_turn_bind in_turn_log in_turn_await in_turn_liftE in_turn_delete
                   in_turn_loadData in_turn_sendQueries)


subsection \<open>propagating\<close>

lemma propagating_bind:
  assumes m: "propagating m" and f: "\<And>x. propagating (f x)"
  shows "propagating (bindM m f)"
  unfolding propagating_def
proof
  fix s :: state
  from m obtain es1 where es1: "rejections (trace (snd (m s))) = rejections (trace s) @ es1"
      "\<forall>ce \<in> set es1. is_delete (fst ce) \<or> fst (m s) = Inl (snd ce)"
    unfolding propagating_def by blast
  show "\<exists>es. rejections (trace (snd (bindM m f s))) = rejections (trace s) @ es \<and>
             (\<forall>ce \<in> set es. is_delete (fst ce) \<or> fst (bindM m f s) = Inl (snd ce))"
  proof (cases rule: bindM_cases[of m s f])
    case (raise e s')
    with es1 show ?thesis by auto
  next
    case (returned x s')
    from f[of x] obtain es2 where es2: "rejections (trace (snd (f x s'))) = rejections (trace s') @ es2"
        "\<forall>ce \<in> set es2. is_delete (fst ce) \<or> fst (f x s') = Inl (snd ce)"
      unfolding propagating_def by blast
    from es1 returned have "\<forall>ce \<in> set es1. is_delete (fst ce)" by simp
    with es1 es2 returned
    have "rejections (trace (snd (bindM m f s))) = rejections (trace s) @ (es1 @ es2) \<and>
          (\<forall>ce \<in> set (es1 @ es2). is_delete (fst ce) \<or> fst (bindM m f s) = Inl (snd ce))"
      by auto
    then show ?thesis by blast
  qed
qed

lemma propagating_then: "propagating m \<Longrightarrow> propagating n \<Longrightarrow> propagating (thenM m n)"
  by (simp add: thenM_def propagating_bind)

lemma propagating_quiet:
  assumes "\<And>s. rejections (trace (snd (m s))) = rejections (trace s)"
  shows "propagating m"
  unfolding propagating_def
proof
  fix s :: state
  have "rejections (trace (snd (m s))) = rejections (trace s) @ [] \<and>
        (\<forall>ce \<in> set []. is_delete (fst ce) \<or> fst (m s) = Inl (snd ce))"
    using assms by simp
  then show "\<exists>es. rejections (trace (snd (m s))) = rejections (trace s) @ es \<and>
             (\<forall>ce \<in> set es. is_delete (fst ce) \<or> fst (m s) = Inl (snd ce))"
    by blast
qed

lemma propagating_log: "propagating (console_log ps)"
  by (rule propagating_quiet) (simp add: console_log_def emit_def rejections_append)

lemma propagating_alloc: "propagating (alloc ob)"
  by (rule propagating_quiet) (simp add: alloc_def)

lemma propagating_throw: "propagating (throwM e)"
  by (rule propagating_quiet) (simp add: throwM_def)

lemma propagating_liftE: "propagating (liftE r)"
  by (rule propagating_quiet) (simp add: liftE_def)

lemma propagating_at:
  assumes "\<And>s. fst (m s) = r"
      and "\<And>s. rejections (trace (snd (m s))) =
                 rejections (trace s) @ (case r of Inl e \<Rightarrow> [(c s, e)] | Inr x \<Rightarrow> [])"
  shows "propagating m"
  unfolding propagating_def
proof
  fix s :: state
  have "rejections (trace (snd (m s))) =
          rejections (trace s) @ (case r of Inl e \<Rightarrow> [(c s, e)] | Inr x \<Rightarrow> []) \<and>
        (\<forall>ce \<in> set (case r of Inl e \<Rightarrow> [(c s, e)] | Inr x \<Rightarrow> []).
            is_delete (fst ce) \<or> fst (m s) = Inl (snd ce))"
    using assms by (cases r) simp_all
  then show "\<exists>es. rejections (trace (snd (m s))) = rejections (trace s) @ es \<and>
             (\<forall>ce \<in> set es. is_delete (fst ce) \<or> fst (m s) = Inl (snd ce))"
    by blast
qed

lemma propagating_await: "propagating (await c r)"
  by (rule propagating_at[where r = r and c = "\<lambda>s. c"])
     (simp_all add: await_run rejections_append status_of_def split: sum.split)

lemma propagating_search_call: "propagating (search_call lib t a)"
  unfolding propagating_def
proof
  fix s :: state
  let ?c = "Search t (deref (heap s) a)" and ?r = "search lib t (deref (heap s) a)"
  have eq: "search_call lib t a s = await ?c ?r s"
    by (simp add: search_call_def)
  have "\<exists>es. rejections (trace (snd (await ?c ?r s))) = rejections (trace s) @ es \<and>
             (\<forall>ce \<in> set es. is_delete (fst ce) \<or> fst (await ?c ?r s) = Inl (snd ce))"
    using propagating_await[of ?c ?r] unfolding propagating_def by blast
  then show "\<exists>es. rejections (trace (snd (search_call lib t a s))) = rejections (trace s) @ es \<and>
             (\<forall>ce \<in> set es. is_delete (fst ce) \<or> fst (search_call lib t a s) = Inl (snd ce))"
    by (simp only: eq)
qed

lemma propagating_for_await: "(\<And>x. propagating (body x)) \<Longrightarrow> propagating (for_await it body)"
  by (induction it) (simp_all add: propagating_await propagating_then)

lemma propagating_print_results: "propagating (print_results sr)"
  by (simp add: print_results_def propagating_for_await propagating_log)

lemma propagating_delete: "propagating (deleteIndexIfExists lib n)"
  unfolding propagating_def
proof
  fix s :: state
  let ?es = "case deleteIndex lib n of Inl e \<Rightarrow> [(DeleteIndex n, e)] | Inr u \<Rightarrow> []"
  have "rejections (trace (snd (deleteIndexIfExists lib n s))) = rejections (trace s) @ ?es \<and>
        (\<forall>ce \<in> set ?es. is_delete (fst ce) \<or> fst (deleteIndexIfExists lib n s) = Inl (snd ce))"
    by (cases s)
       (simp add: deleteIndexIfExists_run rejections_append status_of_def is_delete_def split: sum.split)
  then show "\<exists>es. rejections (trace (snd (deleteIndexIfExists lib n s))) = rejections (trace s) @ es \<and>
             (\<forall>ce \<in> set es. is_delete (fst ce) \<or> fst (deleteIndexIfExists lib n s) = Inl (snd ce))"
    by blast
qed

lemma propagating_loadData: "propagating (loadData lib hotels)"
  unfolding loadData_def
  by (intro propagating_then propagating_bind propagating_log propagating_await)
     (simp add: propagating_throw propagating_log split: list.split)

lemma propagating_sendQueries: "propagating (sendQueries lib)"
  unfolding sendQueries_def Let_def
  by (intro propagating_then propagating_bind propagating_log propagating_await propagating_alloc
            propagating_search_call propagating_print_results)

lemma propagating_main: "propagating (main lib endpoint apiKey hotels hotelIndexDefinition)"
  unfolding main_def awaited_sleep
  by (intro propagating_then propagating_log)
     (auto intro!: propagating_then propagating_bind propagating_log propagating_await propagating_liftE
                   propagating_delete propagating_loadData propagating_sendQueries)

subsection \<open>follows\<close>

lemma followsI:
  assumes "\<And>T. \<exists>i j. calls (trace (snd (k \<lparr>trace = T, heap = H\<rparr>))) = calls T @ take i L \<and>
                  heap (snd (k \<lparr>trace = T, heap = H\<rparr>)) = H @ take j A \<and>
                  (\<not> isl (fst (k \<lparr>trace = T, heap = H\<rparr>)) \<longrightarrow> length L \<le> i \<and> length A \<le> j)"
  shows "follows k L A H"
  using assms unfolding follows_def by blast

lemma follows_stop:
  assumes "\<And>T. calls (trace (snd (k \<lparr>trace = T, heap = H\<rparr>))) = calls T"
          "\<And>T. heap (snd (k \<lparr>trace = T, heap = H\<rparr>)) = H"
  shows "follows k [] [] H"
  by (rule followsI) (simp add: assms)

text \<open>
  One step of a script: from every state it either raises, after events whose calls are
  an initial part of \<open>cs\<close>, or goes on as a script that follows the rest of the plan,
  after events whose calls are \<open>cs\<close> and after building \<open>objs\<close>.
\<close>

lemma follows_branch:
  assumes "\<And>T. (\<exists>e evs. m \<lparr>trace = T, heap = H\<rparr> = (Inl e, \<lparr>trace = T @ evs, heap = H\<rparr>)
                        \<and> prefix (calls evs) cs)
             \<or> (\<exists>k evs. m \<lparr>trace = T, heap = H\<rparr> = k \<lparr>trace = T @ evs, heap = H @ objs\<rparr>
                        \<and> calls evs = cs \<and> follows k L A (H @ objs))"
  shows "follows m (cs @ L) (objs @ A) H"
proof (rule followsI)
  fix T
  let ?r = "m \<lparr>trace = T, heap = H\<rparr>"
  let ?goal = "\<lambda>i j. calls (trace (snd ?r)) = calls T @ take i (cs @ L) \<and>
         heap (snd ?r) = H @ take j (objs @ A) \<and>
         (\<not> isl (fst ?r) \<longrightarrow> length (cs @ L) \<le> i \<and> length (objs @ A) \<le> j)"
  from assms[of T] show "\<exists>i j. ?goal i j"
  proof (elim disjE exE conjE)
    fix e evs
    assume r: "?r = (Inl e, \<lparr>trace = T @ evs, heap = H\<rparr>)" and p: "prefix (calls evs) cs"
    from p obtain zs where "cs = calls evs @ zs" by (auto simp: prefix_def)
    with r have "?goal (length (calls evs)) 0"
      by (simp add: calls_append)
    then show ?thesis by blast
  next
    fix k evs
    assume r: "?r = k \<lparr>trace = T @ evs, heap = H @ objs\<rparr>" and c: "calls evs = cs"
       and k: "follows k L A (H @ objs)"
    from k obtain i j where ij:
       "calls (trace (snd (k \<lparr>trace = T @ evs, heap = H @ objs\<rparr>))) = calls (T @ evs) @ take i L"
       "heap (snd (k \<lparr>trace = T @ evs, heap = H @ objs\<rparr>)) = (H @ objs) @ take j A"
       "\<not> isl (fst (k \<lparr>trace = T @ evs, heap = H @ objs\<rparr>)) \<longrightarrow> length L \<le> i \<and> length A \<le> j"
      unfolding follows_def by blast
    with c r have "?goal (length cs + i) (length objs + j)"
      by (simp add: calls_append)
    then show ?thesis by blast
  qed
qed

lemma follows_step:
  assumes "\<And>T. m \<lparr>trace = T, heap = H\<rparr> = k \<lparr>trace = T @ evs, heap = H @ objs\<rparr>"
      and "calls evs = cs" and "follows k L A (H @ objs)"
  shows "follows m (cs @ L) (objs @ A) H"
  by (rule follows_branch) (use assms in blast)

lemma follows_log_last: "follows (console_log ps) [] [] H"
  by (rule follows_stop) (simp_all add: run_log_last calls_append)

lemma follows_log: "follows k L A H \<Longrightarrow> follows (thenM (console_log ps) k) L A H"
  using follows_step[where evs = "[Log ps]" and objs = "[]" and cs = "[]" and m = "thenM (console_log ps) k"
                       and k = k and L = L and A = A and H = H]
  by (simp add: run_log)

lemma follows_alloc:
  "ob' = ob \<Longrightarrow> follows (k (length H)) L A (H @ [ob]) \<Longrightarrow> follows (bindM (alloc ob) k) L (ob' # A) H"
  using follows_step[where evs = "[]" and objs = "[ob]" and cs = "[]" and m = "bindM (alloc ob) k"
                       and k = "k (length H)" and L = L and A = A and H = H]
  by (simp add: run_alloc)

lemma follows_delete:
  "follows k L A H \<Longrightarrow> follows (thenM (deleteIndexIfExists lib n) k) (DeleteIndex n # L) A H"
  using follows_step[where m = "thenM (deleteIndexIfExists lib n) k" and k = k and L = L and A = A and H = H
           and objs = "[]" and cs = "[DeleteIndex n]"
           and evs = "[Invoke (DeleteIndex n), Settle (DeleteIndex n) (status_of (deleteIndex lib n)),
                  Log [Lit (case deleteIndex lib n of Inl e \<Rightarrow> ''Index does not exist yet.''
                                                   | Inr u \<Rightarrow> ''Deleting index...'')]]"]
  by (simp add: run_delete)

lemma follows_sleep:
  "follows k L A H \<Longrightarrow> follows (thenM (bindM (sleep ms) settle) k) (Sleep ms # L) A H"
  using follows_step[where m = "thenM (bindM (sleep ms) settle) k" and k = k and L = L and A = A and H = H
           and objs = "[]" and cs = "[Sleep ms]"
           and evs = "[Invoke (Sleep ms), Settle (Sleep ms) Fulfilled]"]
  by (simp add: run_sleep)

lemma follows_await:
  assumes "\<And>x. follows (k x) L A H"
  shows "follows (bindM (await c r) k) (c # L) A H"
proof -
  have "follows (bindM (await c r) k) ([c] @ L) ([] @ A) H"
  proof (rule follows_branch)
    fix T
    show "(\<exists>e evs. bindM (await c r) k \<lparr>trace = T, heap = H\<rparr> = (Inl e, \<lparr>trace = T @ evs, heap = H\<rparr>)
                        \<and> prefix (calls evs) [c])
             \<or> (\<exists>k' evs. bindM (await c r) k \<lparr>trace = T, heap = H\<rparr> = k' \<lparr>trace = T @ evs, heap = H @ []\<rparr>
                        \<and> calls evs = [c] \<and> follows k' L A (H @ []))"
    proof (cases r)
      case (Inl e)
      then have "bindM (await c r) k \<lparr>trace = T, heap = H\<rparr> =
                   (Inl e, \<lparr>trace = T @ [Invoke c, Settle c (Rejected e)], heap = H\<rparr>)
                 \<and> prefix (calls [Invoke c, Settle c (Rejected e)]) [c]"
        by (simp add: run_await)
      then show ?thesis by blast
    next
      case (Inr x)
      then have "bindM (await c r) k \<lparr>trace = T, heap = H\<rparr> =
                   k x \<lparr>trace = T @ [Invoke c, Settle c Fulfilled], heap = H @ []\<rparr>
                 \<and> calls [Invoke c, Settle c Fulfilled] = [c] \<and> follows (k x) L A (H @ [])"
        using assms by (simp add: run_await)
      then show ?thesis by blast
    qed
  qed
  then show ?thesis by simp
qed

text \<open>
  A query: the search request and the loop that prints its results. The next step of the
  plan is taken only when the iterator has been fetched to its end.
\<close>

lemma follows_query:
  assumes "q = Search t (deref H a)" and "\<And>x. follows (k x) L A H"
  shows "follows (bindM (search_call lib t a) (\<lambda>x. thenM (print_results x) (k x)))
           (q # fetches lib q @ L) A H"
proof -
  let ?m = "bindM (search_call lib t a) (\<lambda>x. thenM (print_results x) (k x))"
  have "follows ?m ((q # fetches lib q) @ L) ([] @ A) H"
  proof (rule follows_branch)
    fix T
    let ?r = "?m \<lparr>trace = T, heap = H\<rparr>"
    let ?thesis = "(\<exists>e evs. ?r = (Inl e, \<lparr>trace = T @ evs, heap = H\<rparr>)
                        \<and> prefix (calls evs) (q # fetches lib q))
             \<or> (\<exists>k' evs. ?r = k' \<lparr>trace = T @ evs, heap = H @ []\<rparr>
                        \<and> calls evs = q # fetches lib q \<and> follows k' L A (H @ []))"
    show ?thesis
    proof (cases "search lib t (deref H a)")
      case (Inl e)
      then have "?r = (Inl e, \<lparr>trace = T @ [Invoke q, Settle q (Rejected e)], heap = H\<rparr>)
                 \<and> prefix (calls [Invoke q, Settle q (Rejected e)]) (q # fetches lib q)"
        by (simp add: run_search assms(1))
      then show ?thesis by blast
    next
      case (Inr x)
      let ?evs = "[Invoke q, Settle q Fulfilled] @ iter_trace (results_iter x)"
      from Inr have f: "calls ?evs = q # fetches lib q"
        by (simp add: calls_append calls_iter_trace fetches_def assms(1))
      show ?thesis
      proof (cases "iter_outcome (results_iter x)")
        case (Inl e)
        with Inr have "?r = (Inl e, \<lparr>trace = T @ ?evs, heap = H\<rparr>)"
          by (simp add: run_search run_print assms(1))
        with f have "?r = (Inl e, \<lparr>trace = T @ ?evs, heap = H\<rparr>)
                     \<and> prefix (calls ?evs) (q # fetches lib q)"
          by simp
        then show ?thesis by blast
      next
        case (Inr u)
        with \<open>search lib t (deref H a) = Inr x\<close>
        have "?r = k x \<lparr>trace = T @ ?evs, heap = H @ []\<rparr>"
          by (simp add: run_search run_print assms(1))
        with f assms(2)[of x]
        have "?r = k x \<lparr>trace = T @ ?evs, heap = H @ []\<rparr>
              \<and> calls ?evs = q # fetches lib q \<and> follows (k x) L A (H @ [])"
          by simp
        then show ?thesis by blast
      qed
    qed
  qed
  then show ?thesis by simp
qed

subsection \<open>The store\<close>

lemma lookup_new: "length H \<le> a \<Longrightarrow> lookup (H @ xs) a = lookup xs (a - length H)"
  by (auto simp: lookup_def nth_append)

lemma lookup_Cons: "lookup (x # xs) n = (if n = 0 then Some x else lookup xs (n - 1))"
  by (cases n) (simp_all add: lookup_def)

lemma lookup_Nil: "lookup [] n = None"
  by (simp add: lookup_def)

lemmas store_simps = deref_def deref_field_def lookup_new lookup_Cons lookup_Nil

lemma follows_liftE:
  assumes "\<And>x. r = Inr x \<Longrightarrow> follows (k x) L A H"
  shows "follows (bindM (liftE r) k) L A H"
proof -
  have "follows (bindM (liftE r) k) ([] @ L) ([] @ A) H"
  proof (rule follows_branch)
    fix T
    show "(\<exists>e evs. bindM (liftE r) k \<lparr>trace = T, heap = H\<rparr> = (Inl e, \<lparr>trace = T @ evs, heap = H\<rparr>)
                        \<and> prefix (calls evs) [])
             \<or> (\<exists>k' evs. bindM (liftE r) k \<lparr>trace = T, heap = H\<rparr> = k' \<lparr>trace = T @ evs, heap = H @ []\<rparr>
                        \<and> calls evs = [] \<and> follows k' L A (H @ []))"
    proof (cases r)
      case (Inl e)
      then have "bindM (liftE r) k \<lparr>trace = T, heap = H\<rparr> = (Inl e, \<lparr>trace = T @ [], heap = H\<rparr>)
                 \<and> prefix (calls []) []"
        by (simp add: run_liftE)
      then show ?thesis by blast
    next
      case (Inr x)
      then have "bindM (liftE r) k \<lparr>trace = T, heap = H\<rparr> = k x \<lparr>trace = T @ [], heap = H @ []\<rparr>
                 \<and> calls [] = [] \<and> follows (k x) L A (H @ [])"
        using assms by (simp add: run_liftE)
      then show ?thesis by blast
    qed
  qed
  then show ?thesis by simp
qed

lemma follows_loadData:
  assumes "follows k L A H"
  shows "follows (thenM (loadData lib hotels) k) (MergeOrUploadDocuments hotels # L) A H"
proof -
  let ?c = "MergeOrUploadDocuments hotels"
  have "follows (thenM (loadData lib hotels) k) ([?c] @ L) ([] @ A) H"
  proof (rule follows_branch)
    fix T
    let ?m = "thenM (loadData lib hotels) k \<lparr>trace = T, heap = H\<rparr>"
    let ?thesis = "(\<exists>e evs. ?m = (Inl e, \<lparr>trace = T @ evs, heap = H\<rparr>) \<and> prefix (calls evs) [?c])
             \<or> (\<exists>k' evs. ?m = k' \<lparr>trace = T @ evs, heap = H @ []\<rparr>
                        \<and> calls evs = [?c] \<and> follows k' L A (H @ []))"
    show ?thesis
    proof (cases "mergeOrUploadDocuments lib hotels")
      case (Inl e)
      then have "?m = (Inl e, \<lparr>trace = T @ [Log [Lit ''Uploading documents...''], Invoke ?c,
                        Settle ?c (Rejected e)], heap = H\<rparr>)
                 \<and> prefix (calls [Log [Lit ''Uploading documents...''], Invoke ?c, Settle ?c (Rejected e)]) [?c]"
        by (simp add: run_loadData)
      then show ?thesis by blast
    next
      case (Inr r)
      show ?thesis
      proof (cases "results r")
        case Nil
        with Inr have "?m = (Inl (TypeError ''Cannot read properties of undefined (reading 'succeeded')''),
                   \<lparr>trace = T @ [Log [Lit ''Uploading documents...''], Invoke ?c, Settle ?c Fulfilled,
                        Log [Json (index_documents_result_json r)]], heap = H\<rparr>)
                 \<and> prefix (calls [Log [Lit ''Uploading documents...''], Invoke ?c, Settle ?c Fulfilled,
                        Log [Json (index_documents_result_json r)]]) [?c]"
          by (simp add: run_loadData)
        then show ?thesis by blast
      next
        case (Cons x xs)
        with Inr assms have "?m = k \<lparr>trace = T @ [Log [Lit ''Uploading documents...''], Invoke ?c,
                        Settle ?c Fulfilled, Log [Json (index_documents_result_json r)],
                        Log [Lit ''Index operations succeeded: '', Json (JBool (succeeded x))]], heap = H @ []\<rparr>
                 \<and> calls [Log [Lit ''Uploading documents...''], Invoke ?c,
                        Settle ?c Fulfilled, Log [Json (index_documents_result_json r)],
                        Log [Lit ''Index operations succeeded: '', Json (JBool (succeeded x))]] = [?c]
                 \<and> follows k L A (H @ [])"
          by (simp add: run_loadData)
        then show ?thesis by blast
      qed
    qed
  qed
  then show ?thesis by simp
qed

lemma fetches_lookup: "fetches lib (GetDocument k) = []"
  by (simp add: fetches_def)

lemma query_calls_unfold:
  "query_calls lib =
     Search ''*'' (JObj [(''includeTotalCount'', JBool True),
                         (''select'', JArr [JStr ''HotelId'', JStr ''HotelName'', JStr ''Rating''])])
     # fetches lib (Search ''*'' (JObj [(''includeTotalCount'', JBool True),
                         (''select'', JArr [JStr ''HotelId'', JStr ''HotelName'', JStr ''Rating''])]))
     @ Search ''wifi'' (JObj [(''filter'', JStr (odata lib [''Address/StateProvince eq '', ''''] [JStr ''FL''])),
                             (''orderBy'', JArr [JStr ''Rating desc'']),
                             (''select'', JArr [JStr ''HotelId'', JStr ''HotelName'', JStr ''Rating''])])
     # fetches lib (Search ''wifi'' (JObj [(''filter'', JStr (odata lib [''Address/StateProvince eq '', ''''] [JStr ''FL''])),
                             (''orderBy'', JArr [JStr ''Rating desc'']),
                             (''select'', JArr [JStr ''HotelId'', JStr ''HotelName'', JStr ''Rating''])]))
     @ Search ''sublime cliff'' (JObj [(''select'', JArr [JStr ''HotelId'', JStr ''HotelName'', JStr ''Rating'']),
                                      (''searchFields'', JArr [JStr ''HotelName''])])
     # fetches lib (Search ''sublime cliff'' (JObj [(''select'', JArr [JStr ''HotelId'', JStr ''HotelName'', JStr ''Rating'']),
                                      (''searchFields'', JArr [JStr ''HotelName''])]))
     @ Search ''*'' (JObj [(''facets'', JArr [JStr ''Category'']),
                          (''select'', JArr [JStr ''HotelId'', JStr ''HotelName'', JStr ''Rating'']),
                          (''searchFields'', JArr [JStr ''HotelName''])])
     # fetches lib (Search ''*'' (JObj [(''facets'', JArr [JStr ''Category'']),
                          (''select'', JArr [JStr ''HotelId'', JStr ''HotelName'', JStr ''Rating'']),
                          (''searchFields'', JArr [JStr ''HotelName''])]))
     @ [GetDocument ''3'']"
  by (simp add: query_calls_def five_queries_def selectFields_value_def fetches_lookup)

lemma follows_sendQueries:
  "follows (sendQueries lib) (query_calls lib) (allocations lib (length H)) H"
  unfolding sendQueries_def Let_def query_calls_unfold allocations_def
  apply (rule follows_log follows_alloc follows_query follows_await follows_log_last
       | simp add: store_simps)+
  done


lemma follows_main:
  assumes "endpoint \<noteq> []" "apiKey \<noteq> []" "get_prop hotelIndexDefinition ''name'' = Inr indexName"
  shows "follows (main lib endpoint apiKey hotels hotelIndexDefinition)
           (spec_calls lib indexName hotelIndexDefinition hotels) (allocations lib 0) []"
  using assms unfolding main_def spec_calls_def
  apply simp
  apply (rule follows_log follows_liftE follows_delete follows_await follows_loadData follows_sleep
       | simp)+
  apply (rule follows_sendQueries[of lib "[]", simplified])
  done

lemma grows_prefix: "grows m \<Longrightarrow> prefix T (trace s) \<Longrightarrow> prefix T (trace (snd (m s)))"
  unfolding grows_def by (blast intro: prefix_order.trans)

lemma await_reached:
  assumes "\<And>x. grows (k x)"
  shows "prefix (T @ [Invoke c]) (trace (snd (bindM (await c r) k \<lparr>trace = T, heap = H\<rparr>)))"
proof (cases r)
  case (Inl e)
  then show ?thesis by (simp add: run_await)
next
  case (Inr x)
  have "prefix (T @ [Invoke c]) (trace \<lparr>trace = T @ [Invoke c, Settle c Fulfilled], heap = H\<rparr>)"
    by simp
  with assms[of x] have "prefix (T @ [Invoke c]) (trace (snd (k x \<lparr>trace = T @ [Invoke c, Settle c Fulfilled], heap = H\<rparr>)))"
    by (rule grows_prefix)
  with Inr show ?thesis by (simp add: run_await)
qed

lemma main_reaches_create:
  assumes "endpoint \<noteq> []" "apiKey \<noteq> []" "get_prop hotelIndexDefinition ''name'' = Inr indexName"
  shows "prefix ([Log [Lit ''Running Azure AI Search Javascript quickstart...''],
                  Log [Lit ''Checking if index exists...''],
                  Invoke (DeleteIndex indexName),
                  Settle (DeleteIndex indexName) (status_of (deleteIndex lib indexName)),
                  Log [Lit (case deleteIndex lib indexName of Inl e \<Rightarrow> ''Index does not exist yet.''
                                                   | Inr u \<Rightarrow> ''Deleting index...'')],
                  Log [Lit ''Creating index...'']] @ [Invoke (CreateIndex hotelIndexDefinition)])
           (trace (snd (main lib endpoint apiKey hotels hotelIndexDefinition init)))"
  using assms
  apply (simp only: main_def awaited_sleep init_def if_False simp_thms run_log run_liftE run_delete
                    sum.case append_Nil append_Cons)
  apply (rule await_reached[where T = "[a, b, c, d, e, f]" for a b c d e f, simplified])
  apply (intro grows_then grows_bind grows_log grows_await grows_loadData grows_sendQueries)
  done

section \<open>The claims\<close>

lemma or_empty_missing: "or_empty v = [] \<longleftrightarrow> v = None \<or> v = Some []"
  by (simp add: or_empty_def split: option.splits)

lemma get_prop_of_truthy: "truthy v \<Longrightarrow> \<exists>x. get_prop v k = Inr x"
  by (cases v) (auto split: option.split)

lemma demo_name: "get_prop demo_index ''name'' = Inr (JStr ''hotels-quickstart'')"
  by (simp add: demo_index_def)

text \<open>
  Claim C3. When the endpoint or the API key of the environment is missing (unset or
  empty), \<open>main\<close> prints its banner and the configuration message, returns without
  raising, and performs no remote operation: the trace of the run holds the two log
  lines and nothing else, and no object is built.
\<close>

theorem missing_configuration_returns_quietly:
  assumes "SEARCH_API_ENDPOINT e = None \<or> SEARCH_API_ENDPOINT e = Some []
           \<or> SEARCH_API_KEY e = None \<or> SEARCH_API_KEY e = Some []"
  shows "main lib (or_empty (SEARCH_API_ENDPOINT e)) (or_empty (SEARCH_API_KEY e)) hotels hotelIndexDefinition init =
           (Inr (), \<lparr>trace = [Log [Lit ''Running Azure AI Search Javascript quickstart...''],
                              Log [Lit ''Make sure to set valid values for endpoint and apiKey with proper authorization.'']],
                     heap = []\<rparr>)"
proof -
  have "or_empty (SEARCH_API_ENDPOINT e) = [] \<or> or_empty (SEARCH_API_KEY e) = []"
    using assms by (auto simp: or_empty_missing)
  then show ?thesis
    by (auto simp: main_def init_def run_log run_log_last)
qed

theorem missing_configuration_witness:
  "SEARCH_API_KEY \<lparr>SEARCH_API_ENDPOINT = Some ''https://demo.search.windows.net'', SEARCH_API_KEY = None\<rparr> = None
   \<and> main demo_sdk (or_empty (Some ''https://demo.search.windows.net'')) (or_empty None) (JArr []) demo_index init =
           (Inr (), \<lparr>trace = [Log [Lit ''Running Azure AI Search Javascript quickstart...''],
                              Log [Lit ''Make sure to set valid values for endpoint and apiKey with proper authorization.'']],
                     heap = []\<rparr>)"
  using missing_configuration_returns_quietly
          [of "\<lparr>SEARCH_API_ENDPOINT = Some ''https://demo.search.windows.net'', SEARCH_API_KEY = None\<rparr>"
              demo_sdk "JArr []" demo_index]
  by simp

subsection \<open>Index deletion\<close>

lemma delete_failure_run:
  assumes "deleteIndex lib indexName = Inl e"
  shows "deleteIndexIfExists lib indexName s =
           (Inr (), s\<lparr>trace := trace s @ [Invoke (DeleteIndex indexName),
                                            Settle (DeleteIndex indexName) (Rejected e),
                                            Log [Lit ''Index does not exist yet.'']]\<rparr>)"
  using assms by (cases s) (simp add: deleteIndexIfExists_run status_of_def)

lemma delete_failure_continues:
  assumes "deleteIndex lib indexName = Inl e"
      and "endpoint \<noteq> []" "apiKey \<noteq> []" "get_prop hotelIndexDefinition ''name'' = Inr indexName"
  shows "prefix [Log [Lit ''Running Azure AI Search Javascript quickstart...''],
                 Log [Lit ''Checking if index exists...''],
                 Invoke (DeleteIndex indexName),
                 Settle (DeleteIndex indexName) (Rejected e),
                 Log [Lit ''Index does not exist yet.''],
                 Log [Lit ''Creating index...''],
                 Invoke (CreateIndex hotelIndexDefinition)]
           (trace (snd (main lib endpoint apiKey hotels hotelIndexDefinition init)))"
  using main_reaches_create[OF assms(2-4), of lib hotels] assms(1)
  by (simp add: status_of_def)

lemma delete_run:
  "deleteIndexIfExists lib indexName s =
     (Inr (), s\<lparr>trace := trace s @
                [Invoke (DeleteIndex indexName),
                 Settle (DeleteIndex indexName) (status_of (deleteIndex lib indexName)),
                 Log [Lit (case deleteIndex lib indexName of
                             Inl e \<Rightarrow> ''Index does not exist yet.''
                           | Inr u \<Rightarrow> ''Deleting index...'')]]\<rparr>)"
  by (cases s) (simp add: deleteIndexIfExists_run)

text \<open>
  Claim C4. For every index name, and whatever the service answers to the deletion, the
  reset step raises nothing to its caller: it returns after one message, and a configured
  run goes on to create the index. This holds when the index does not exist, whichever
  way that reaches the script: if the deletion is fulfilled all the same, there is no
  failure and the message printed is the one for a deletion; if it is rejected with a
  not-found error, the rejection is caught and the message printed is that the index does
  not exist yet.
\<close>

theorem reset_of_missing_index_is_silent:
  "deleteIndexIfExists lib indexName s =
     (Inr (), s\<lparr>trace := trace s @
                [Invoke (DeleteIndex indexName),
                 Settle (DeleteIndex indexName) (status_of (deleteIndex lib indexName)),
                 Log [Lit (case deleteIndex lib indexName of
                             Inl e \<Rightarrow> ''Index does not exist yet.''
                           | Inr u \<Rightarrow> ''Deleting index...'')]]\<rparr>)
   \<and> (endpoint \<noteq> [] \<and> apiKey \<noteq> [] \<and> get_prop hotelIndexDefinition ''name'' = Inr indexName \<longrightarrow>
        prefix [Log [Lit ''Running Azure AI Search Javascript quickstart...''],
                Log [Lit ''Checking if index exists...''],
                Invoke (DeleteIndex indexName),
                Settle (DeleteIndex indexName) (status_of (deleteIndex lib indexName)),
                Log [Lit (case deleteIndex lib indexName of
                            Inl e \<Rightarrow> ''Index does not exist yet.''
                          | Inr u \<Rightarrow> ''Deleting index...'')],
                Log [Lit ''Creating index...''],
                Invoke (CreateIndex hotelIndexDefinition)]
          (trace (snd (main lib endpoint apiKey hotels hotelIndexDefinition init))))"
proof (intro conjI impI)
  show "deleteIndexIfExists lib indexName s =
     (Inr (), s\<lparr>trace := trace s @
                [Invoke (DeleteIndex indexName),
                 Settle (DeleteIndex indexName) (status_of (deleteIndex lib indexName)),
                 Log [Lit (case deleteIndex lib indexName of
                             Inl e \<Rightarrow> ''Index does not exist yet.''
                           | Inr u \<Rightarrow> ''Deleting index...'')]]\<rparr>)"
    by (rule delete_run)
next
  assume "endpoint \<noteq> [] \<and> apiKey \<noteq> [] \<and> get_prop hotelIndexDefinition ''name'' = Inr indexName"
  then show "prefix [Log [Lit ''Running Azure AI Search Javascript quickstart...''],
                Log [Lit ''Checking if index exists...''],
                Invoke (DeleteIndex indexName),
                Settle (DeleteIndex indexName) (status_of (deleteIndex lib indexName)),
                Log [Lit (case deleteIndex lib indexName of
                            Inl e \<Rightarrow> ''Index does not exist yet.''
                          | Inr u \<Rightarrow> ''Deleting index...'')],
                Log [Lit ''Creating index...''],
                Invoke (CreateIndex hotelIndexDefinition)]
          (trace (snd (main lib endpoint apiKey hotels hotelIndexDefinition init)))"
    using main_reaches_create[of endpoint apiKey hotelIndexDefinition indexName lib hotels]
    by simp
qed

theorem reset_of_missing_index_witness:
  "deleteIndexIfExists demo_sdk (JStr ''hotels-quickstart'') init =
     (Inr (), init\<lparr>trace := trace init @
                [Invoke (DeleteIndex (JStr ''hotels-quickstart'')),
                 Settle (DeleteIndex (JStr ''hotels-quickstart'')) Fulfilled,
                 Log [Lit ''Deleting index...'']]\<rparr>)
   \<and> ''https://demo.search.windows.net'' \<noteq> [] \<and> ''key'' \<noteq> []
   \<and> get_prop demo_index ''name'' = Inr (JStr ''hotels-quickstart'')
   \<and> prefix [Log [Lit ''Running Azure AI Search Javascript quickstart...''],
              Log [Lit ''Checking if index exists...''],
              Invoke (DeleteIndex (JStr ''hotels-quickstart'')),
              Settle (DeleteIndex (JStr ''hotels-quickstart'')) Fulfilled,
              Log [Lit ''Deleting index...''],
              Log [Lit ''Creating index...''],
              Invoke (CreateIndex demo_index)]
        (trace (snd (main demo_sdk ''https://demo.search.windows.net'' ''key'' demo_records demo_index init)))"
  using reset_of_missing_index_is_silent
          [of demo_sdk "JStr ''hotels-quickstart''" init
              "''https://demo.search.windows.net''" "''key''" demo_index demo_records]
  by (simp add: demo_sdk_def demo_name status_of_def)

text \<open>
  Claim C9. The handler of the deletion step has no condition on the error: whatever
  the deletion is rejected with (an authentication or a network failure as much as a
  missing index), \<open>deleteIndexIfExists\<close> prints the message that the index does not
  exist yet, raises nothing, and a configured run goes on to create the index.
\<close>

theorem delete_swallows_every_error:
  assumes "deleteIndex lib indexName = Inl e"
  shows "deleteIndexIfExists lib indexName s =
           (Inr (), s\<lparr>trace := trace s @ [Invoke (DeleteIndex indexName),
                                            Settle (DeleteIndex indexName) (Rejected e),
                                            Log [Lit ''Index does not exist yet.'']]\<rparr>)
       \<and> (endpoint \<noteq> [] \<and> apiKey \<noteq> [] \<and> get_prop hotelIndexDefinition ''name'' = Inr indexName \<longrightarrow>
            prefix [Log [Lit ''Running Azure AI Search Javascript quickstart...''],
                    Log [Lit ''Checking if index exists...''],
                    Invoke (DeleteIndex indexName),
                    Settle (DeleteIndex indexName) (Rejected e),
                    Log [Lit ''Index does not exist yet.''],
                    Log [Lit ''Creating index...''],
                    Invoke (CreateIndex hotelIndexDefinition)]
              (trace (snd (main lib endpoint apiKey hotels hotelIndexDefinition init))))"
  using delete_failure_run[OF assms] delete_failure_continues[OF assms] by blast

theorem delete_swallows_every_error_witness:
  "deleteIndex unauthorized_sdk (JStr ''hotels-quickstart'') = Inl (RestError 401 ''Unauthorized'')
   \<and> deleteIndexIfExists unauthorized_sdk (JStr ''hotels-quickstart'') init =
           (Inr (), init\<lparr>trace := trace init @ [Invoke (DeleteIndex (JStr ''hotels-quickstart'')),
                                            Settle (DeleteIndex (JStr ''hotels-quickstart''))
                                              (Rejected (RestError 401 ''Unauthorized'')),
                                            Log [Lit ''Index does not exist yet.'']]\<rparr>)
   \<and> ''https://demo.search.windows.net'' \<noteq> [] \<and> ''key'' \<noteq> []
   \<and> get_prop demo_index ''name'' = Inr (JStr ''hotels-quickstart'')
   \<and> prefix [Log [Lit ''Running Azure AI Search Javascript quickstart...''],
                    Log [Lit ''Checking if index exists...''],
                    Invoke (DeleteIndex (JStr ''hotels-quickstart'')),
                    Settle (DeleteIndex (JStr ''hotels-quickstart'')) (Rejected (RestError 401 ''Unauthorized'')),
                    Log [Lit ''Index does not exist yet.''],
                    Log [Lit ''Creating index...''],
                    Invoke (CreateIndex demo_index)]
              (trace (snd (main unauthorized_sdk ''https://demo.search.windows.net'' ''key'' (JArr []) demo_index init)))"
  using delete_swallows_every_error
          [of unauthorized_sdk "JStr ''hotels-quickstart''" "RestError 401 ''Unauthorized''" init
              "''https://demo.search.windows.net''" "''key''" demo_index "JArr []"]
  by (simp add: unauthorized_sdk_def demo_sdk_def demo_name)

lemma demo_value: "get_prop demo_hotels ''value'' = Inr demo_records"
  by (simp add: demo_hotels_def)

lemma demo_truthy: "truthy demo_hotels" "truthy demo_index"
  by (simp_all add: demo_hotels_def demo_index_def)

lemma demo_env_values:
  "or_empty (SEARCH_API_ENDPOINT demo_env) = ''https://demo.search.windows.net''"
  "or_empty (SEARCH_API_KEY demo_env) = ''key''"
  by (simp_all add: demo_env_def or_empty_def)

subsection \<open>Start-up\<close>

text \<open>
  Claim C8. If the bundled record-set document or the bundled index-schema document is
  missing or yields no value, the program fails at start-up: the import or the guard at
  the top of the module raises, the exception escapes the module (exit code 1), and
  nothing else has been printed or requested.
\<close>

theorem missing_documents_are_fatal_at_startup:
  assumes "no_value hotels_json \<or> no_value index_json"
  shows "program e hotels_json index_json lib =
           \<lparr>exitCode = 1,
            observed = [Uncaught (case hotels_json of
                                    None \<Rightarrow> ModuleNotFound ''./hotels.json''
                                  | Some hotelData \<Rightarrow>
                                     (case index_json of
                                        None \<Rightarrow> ModuleNotFound ''./hotels_quickstart_index.json''
                                      | Some indexDefinition \<Rightarrow>
                                          Error ''Make sure to set valid values for hotelData and indexDefinition.''))]\<rparr>"
  using assms
  by (auto simp: program_def import_json_def no_value_def uncaught_def split: option.splits)

theorem missing_documents_witness:
  "no_value (Some JNull) \<and>
   program demo_env (Some JNull) (Some demo_index) demo_sdk =
     \<lparr>exitCode = 1,
      observed = [Uncaught (Error ''Make sure to set valid values for hotelData and indexDefinition.'')]\<rparr>"
  using missing_documents_are_fatal_at_startup[of "Some JNull" "Some demo_index" demo_env demo_sdk]
  by (simp add: no_value_def)

subsection \<open>The top-level handler\<close>

lemma main_catch_raise:
  "fst (m init) = Inl err \<Longrightarrow>
     main_catch m = \<lparr>exitCode = 0, observed = trace (snd (m init)) @ [LogError ''The sample encountered an error:'' err]\<rparr>"
  by (cases "m init") (simp add: main_catch_def)

lemma main_catch_return:
  "fst (m init) = Inr u \<Longrightarrow> main_catch m = \<lparr>exitCode = 0, observed = trace (snd (m init))\<rparr>"
  by (cases "m init") (simp add: main_catch_def)

lemma exitCode_main_catch: "exitCode (main_catch m) = 0"
  by (cases "m init") (simp add: main_catch_def split: sum.split)

lemma program_started:
  assumes "truthy hotelData" "truthy indexDefinition" "get_prop hotelData ''value'' = Inr hotels"
  shows "program e (Some hotelData) (Some indexDefinition) lib =
           main_catch (main lib (or_empty (SEARCH_API_ENDPOINT e)) (or_empty (SEARCH_API_KEY e)) hotels indexDefinition)"
  using assms by (simp add: program_def import_json_def)

lemma forbidden_run:
  "main forbidden_sdk ''https://demo.search.windows.net'' ''key'' demo_records demo_index init =
     (Inl (RestError 403 ''Forbidden''),
      \<lparr>trace = [Log [Lit ''Running Azure AI Search Javascript quickstart...''],
                Log [Lit ''Checking if index exists...''],
                Invoke (DeleteIndex (JStr ''hotels-quickstart'')),
                Settle (DeleteIndex (JStr ''hotels-quickstart'')) (Rejected (RestError 403 ''Forbidden'')),
                Log [Lit ''Index does not exist yet.''],
                Log [Lit ''Creating index...''],
                Invoke (CreateIndex demo_index),
                Settle (CreateIndex demo_index) (Rejected (RestError 403 ''Forbidden''))],
       heap = []\<rparr>)"
  by (simp add: main_def init_def run_simps demo_name forbidden_sdk_def demo_sdk_def status_of_def)

text \<open>
  Claim C2 says that a run in which an error propagates out of \<open>main\<close> ends with a
  non-zero exit code. It does not: with a service that refuses the creation of the
  index, \<open>main\<close> raises and the process still exits with code 0.
\<close>

theorem error_path_exits_with_zero:
  "fst (main forbidden_sdk ''https://demo.search.windows.net'' ''key'' demo_records demo_index init)
      = Inl (RestError 403 ''Forbidden'')
   \<and> exitCode (program demo_env (Some demo_hotels) (Some demo_index) forbidden_sdk) = 0"
  by (simp add: forbidden_run program_started[OF demo_truthy demo_value] exitCode_main_catch)

text \<open>
  Claim C2, as the code has it. For every run that gets past start-up, the exit code
  is 0; when an error propagates out of \<open>main\<close> the handler prints it with
  \<open>console.error\<close>, after everything \<open>main\<close> has printed, and returns; when
  \<open>main\<close> completes, nothing is added.
\<close>

theorem error_path_prints_and_exits_zero:
  assumes "truthy hotelData" "truthy indexDefinition" "get_prop hotelData ''value'' = Inr hotels"
  shows "exitCode (program e (Some hotelData) (Some indexDefinition) lib) = 0
       \<and> (fst (main lib (or_empty (SEARCH_API_ENDPOINT e)) (or_empty (SEARCH_API_KEY e)) hotels indexDefinition init) = Inl err \<longrightarrow>
            observed (program e (Some hotelData) (Some indexDefinition) lib) =
              trace (snd (main lib (or_empty (SEARCH_API_ENDPOINT e)) (or_empty (SEARCH_API_KEY e)) hotels indexDefinition init))
                @ [LogError ''The sample encountered an error:'' err])
       \<and> (fst (main lib (or_empty (SEARCH_API_ENDPOINT e)) (or_empty (SEARCH_API_KEY e)) hotels indexDefinition init) = Inr () \<longrightarrow>
            observed (program e (Some hotelData) (Some indexDefinition) lib) =
              trace (snd (main lib (or_empty (SEARCH_API_ENDPOINT e)) (or_empty (SEARCH_API_KEY e)) hotels indexDefinition init)))"
  by (simp add: program_started[OF assms] exitCode_main_catch main_catch_raise main_catch_return)

theorem error_path_witness:
  "truthy demo_hotels \<and> truthy demo_index \<and> get_prop demo_hotels ''value'' = Inr demo_records
   \<and> exitCode (program demo_env (Some demo_hotels) (Some demo_index) forbidden_sdk) = 0
   \<and> fst (main forbidden_sdk (or_empty (SEARCH_API_ENDPOINT demo_env)) (or_empty (SEARCH_API_KEY demo_env)) demo_records demo_index init)
        = Inl (RestError 403 ''Forbidden'')
   \<and> observed (program demo_env (Some demo_hotels) (Some demo_index) forbidden_sdk) =
        trace (snd (main forbidden_sdk (or_empty (SEARCH_API_ENDPOINT demo_env)) (or_empty (SEARCH_API_KEY demo_env)) demo_records demo_index init))
          @ [LogError ''The sample encountered an error:'' (RestError 403 ''Forbidden'')]"
  using error_path_prints_and_exits_zero[OF demo_truthy demo_value, of demo_env forbidden_sdk "RestError 403 ''Forbidden''"]
  by (simp add: demo_env_values demo_truthy demo_value forbidden_run)


subsection \<open>Document upload\<close>

lemma empty_results_run:
  assumes "mergeOrUploadDocuments lib hotels = Inr r" "results r = []"
  shows "loadData lib hotels s =
           (Inl (TypeError ''Cannot read properties of undefined (reading 'succeeded')''),
            s\<lparr>trace := trace s @ [Log [Lit ''Uploading documents...''],
                                   Invoke (MergeOrUploadDocuments hotels),
                                   Settle (MergeOrUploadDocuments hotels) Fulfilled,
                                   Log [Json (index_documents_result_json r)]]\<rparr>)"
  using assms by (cases s) (simp add: loadData_run)

lemma empty_results_main:
  assumes "mergeOrUploadDocuments lib hotels = Inr r" "results r = []"
      and "endpoint \<noteq> []" "apiKey \<noteq> []" "get_prop hotelIndexDefinition ''name'' = Inr indexName"
      and "createIndex lib hotelIndexDefinition = Inr index"
  shows "fst (main lib endpoint apiKey hotels hotelIndexDefinition init) =
           Inl (TypeError ''Cannot read properties of undefined (reading 'succeeded')'')"
  using assms by (simp add: main_def init_def run_simps)

text \<open>
  Claim C10. \<open>loadData\<close> reads \<open>results[0].succeeded\<close> with no guard. When the
  upload is fulfilled with an empty list of per-record results (as for an empty record
  set), it prints the result and then raises a \<open>TypeError\<close> instead of completing;
  in a configured run whose index creation succeeded the error propagates out of
  \<open>main\<close> and is printed by the top-level handler.
\<close>

theorem empty_results_list_raises:
  assumes "mergeOrUploadDocuments lib hotels = Inr r" "results r = []"
  shows "loadData lib hotels s =
           (Inl (TypeError ''Cannot read properties of undefined (reading 'succeeded')''),
            s\<lparr>trace := trace s @ [Log [Lit ''Uploading documents...''],
                                   Invoke (MergeOrUploadDocuments hotels),
                                   Settle (MergeOrUploadDocuments hotels) Fulfilled,
                                   Log [Json (index_documents_result_json r)]]\<rparr>)
       \<and> (endpoint \<noteq> [] \<and> apiKey \<noteq> [] \<and> get_prop hotelIndexDefinition ''name'' = Inr indexName
            \<and> createIndex lib hotelIndexDefinition = Inr index \<longrightarrow>
          fst (main lib endpoint apiKey hotels hotelIndexDefinition init) =
             Inl (TypeError ''Cannot read properties of undefined (reading 'succeeded')'')
          \<and> observed (main_catch (main lib endpoint apiKey hotels hotelIndexDefinition)) =
              trace (snd (main lib endpoint apiKey hotels hotelIndexDefinition init))
                @ [LogError ''The sample encountered an error:''
                     (TypeError ''Cannot read properties of undefined (reading 'succeeded')'')])"
  using empty_results_run[OF assms] empty_results_main[OF assms]
  by (simp add: main_catch_raise)

theorem empty_results_witness:
  "mergeOrUploadDocuments empty_upload_sdk (JArr []) = Inr \<lparr>results = []\<rparr>
   \<and> results \<lparr>results = []\<rparr> = []
   \<and> loadData empty_upload_sdk (JArr []) init =
           (Inl (TypeError ''Cannot read properties of undefined (reading 'succeeded')''),
            init\<lparr>trace := trace init @ [Log [Lit ''Uploading documents...''],
                                   Invoke (MergeOrUploadDocuments (JArr [])),
                                   Settle (MergeOrUploadDocuments (JArr [])) Fulfilled,
                                   Log [Json (index_documents_result_json \<lparr>results = []\<rparr>)]]\<rparr>)
   \<and> ''https://demo.search.windows.net'' \<noteq> [] \<and> ''key'' \<noteq> []
   \<and> get_prop demo_index ''name'' = Inr (JStr ''hotels-quickstart'')
   \<and> createIndex empty_upload_sdk demo_index = Inr \<lparr>name = ''hotels-quickstart''\<rparr>
   \<and> fst (main empty_upload_sdk ''https://demo.search.windows.net'' ''key'' (JArr []) demo_index init) =
             Inl (TypeError ''Cannot read properties of undefined (reading 'succeeded')'')
   \<and> observed (main_catch (main empty_upload_sdk ''https://demo.search.windows.net'' ''key'' (JArr []) demo_index)) =
              trace (snd (main empty_upload_sdk ''https://demo.search.windows.net'' ''key'' (JArr []) demo_index init))
                @ [LogError ''The sample encountered an error:''
                     (TypeError ''Cannot read properties of undefined (reading 'succeeded')'')]"
  using empty_results_list_raises
          [of empty_upload_sdk "JArr []" "\<lparr>results = []\<rparr>" init
              "''https://demo.search.windows.net''" "''key''" demo_index "JStr ''hotels-quickstart''"
              "\<lparr>name = ''hotels-quickstart''\<rparr>"]
  by (simp add: empty_upload_sdk_def demo_sdk_def demo_name)

subsection \<open>Error propagation\<close>

lemma rejection_propagates:
  assumes "Settle c (Rejected e) \<in> set (trace (snd (main lib endpoint apiKey hotels hotelIndexDefinition init)))"
      and "\<not> is_delete c"
  shows "fst (main lib endpoint apiKey hotels hotelIndexDefinition init) = Inl e"
proof -
  let ?m = "main lib endpoint apiKey hotels hotelIndexDefinition"
  from propagating_main[of lib endpoint apiKey hotels hotelIndexDefinition]
  obtain es where es: "rejections (trace (snd (?m init))) = rejections (trace init) @ es"
      "\<forall>ce \<in> set es. is_delete (fst ce) \<or> fst (?m init) = Inl (snd ce)"
    unfolding propagating_def by blast
  from assms(1) have "(c, e) \<in> set (rejections (trace (snd (?m init))))"
    by (simp add: rejections_mem)
  with es(1) have "(c, e) \<in> set es"
    by (simp add: init_def)
  with es(2) assms(2) show ?thesis by fastforce
qed

text \<open>
  Claim C1. In a configured run the only failure recovered locally is that of the index
  deletion: when the deletion is rejected the step returns normally, the message is
  printed and the run goes on to create the index; whereas every other operation that is
  rejected in the run (the creation of the index, the upload, the count, a search, a
  fetch of search results, the lookup) makes \<open>main\<close> raise that very error, which the
  top-level handler prints.
\<close>

theorem only_delete_failure_is_recovered:
  assumes "endpoint \<noteq> []" "apiKey \<noteq> []" "get_prop hotelIndexDefinition ''name'' = Inr indexName"
  shows "(deleteIndex lib indexName = Inl e \<longrightarrow>
            fst (deleteIndexIfExists lib indexName s) = Inr ()
          \<and> Log [Lit ''Index does not exist yet.'']
               \<in> set (trace (snd (main lib endpoint apiKey hotels hotelIndexDefinition init)))
          \<and> Invoke (CreateIndex hotelIndexDefinition)
               \<in> set (trace (snd (main lib endpoint apiKey hotels hotelIndexDefinition init))))
       \<and> (Settle c (Rejected e') \<in> set (trace (snd (main lib endpoint apiKey hotels hotelIndexDefinition init)))
            \<and> \<not> is_delete c \<longrightarrow>
            fst (main lib endpoint apiKey hotels hotelIndexDefinition init) = Inl e'
          \<and> observed (main_catch (main lib endpoint apiKey hotels hotelIndexDefinition)) =
              trace (snd (main lib endpoint apiKey hotels hotelIndexDefinition init))
                @ [LogError ''The sample encountered an error:'' e'])"
proof (intro conjI impI)
  assume d: "deleteIndex lib indexName = Inl e"
  show "fst (deleteIndexIfExists lib indexName s) = Inr ()"
    by (simp add: delete_failure_run[OF d])
  from delete_failure_continues[OF d assms, of hotels]
  have "set [Log [Lit ''Index does not exist yet.''], Invoke (CreateIndex hotelIndexDefinition)]
          \<subseteq> set (trace (snd (main lib endpoint apiKey hotels hotelIndexDefinition init)))"
    by (auto dest!: set_mono_prefix)
  then show "Log [Lit ''Index does not exist yet.'']
               \<in> set (trace (snd (main lib endpoint apiKey hotels hotelIndexDefinition init)))"
    and "Invoke (CreateIndex hotelIndexDefinition)
               \<in> set (trace (snd (main lib endpoint apiKey hotels hotelIndexDefinition init)))"
    by simp_all
next
  assume r: "Settle c (Rejected e') \<in> set (trace (snd (main lib endpoint apiKey hotels hotelIndexDefinition init)))
            \<and> \<not> is_delete c"
  then show p: "fst (main lib endpoint apiKey hotels hotelIndexDefinition init) = Inl e'"
    by (blast intro: rejection_propagates)
  then show "observed (main_catch (main lib endpoint apiKey hotels hotelIndexDefinition)) =
              trace (snd (main lib endpoint apiKey hotels hotelIndexDefinition init))
                @ [LogError ''The sample encountered an error:'' e']"
    by (simp add: main_catch_raise)
qed

theorem only_delete_failure_witness:
  "''https://demo.search.windows.net'' \<noteq> [] \<and> ''key'' \<noteq> []
   \<and> get_prop demo_index ''name'' = Inr (JStr ''hotels-quickstart'')
   \<and> deleteIndex forbidden_sdk (JStr ''hotels-quickstart'') = Inl (RestError 403 ''Forbidden'')
   \<and> fst (deleteIndexIfExists forbidden_sdk (JStr ''hotels-quickstart'') init) = Inr ()
   \<and> Log [Lit ''Index does not exist yet.'']
        \<in> set (trace (snd (main forbidden_sdk ''https://demo.search.windows.net'' ''key'' demo_records demo_index init)))
   \<and> Invoke (CreateIndex demo_index)
        \<in> set (trace (snd (main forbidden_sdk ''https://demo.search.windows.net'' ''key'' demo_records demo_index init)))
   \<and> Settle (CreateIndex demo_index) (Rejected (RestError 403 ''Forbidden''))
        \<in> set (trace (snd (main forbidden_sdk ''https://demo.search.windows.net'' ''key'' demo_records demo_index init)))
   \<and> \<not> is_delete (CreateIndex demo_index)
   \<and> fst (main forbidden_sdk ''https://demo.search.windows.net'' ''key'' demo_records demo_index init)
        = Inl (RestError 403 ''Forbidden'')
   \<and> observed (main_catch (main forbidden_sdk ''https://demo.search.windows.net'' ''key'' demo_records demo_index)) =
        trace (snd (main forbidden_sdk ''https://demo.search.windows.net'' ''key'' demo_records demo_index init))
          @ [LogError ''The sample encountered an error:'' (RestError 403 ''Forbidden'')]"
proof -
  have d: "deleteIndex forbidden_sdk (JStr ''hotels-quickstart'') = Inl (RestError 403 ''Forbidden'')"
    by (simp add: forbidden_sdk_def)
  have s: "Settle (CreateIndex demo_index) (Rejected (RestError 403 ''Forbidden''))
        \<in> set (trace (snd (main forbidden_sdk ''https://demo.search.windows.net'' ''key'' demo_records demo_index init)))"
    by (simp add: forbidden_run)
  have n: "\<not> is_delete (CreateIndex demo_index)"
    by (simp add: is_delete_def)
  show ?thesis
    using only_delete_failure_is_recovered
          [of "''https://demo.search.windows.net''" "''key''" demo_index "JStr ''hotels-quickstart''"
              forbidden_sdk "RestError 403 ''Forbidden''" init demo_records
              "CreateIndex demo_index" "RestError 403 ''Forbidden''"]
          d s n
    by (simp add: demo_name)
qed

subsection \<open>The queries\<close>

lemma iter_fetches_steps: "filter (\<lambda>c. c \<noteq> NextResult) (iter_fetches it) = []"
  by (induction it) simp_all

lemma fetches_steps: "filter (\<lambda>c. c \<noteq> NextResult) (fetches lib q) = []"
  by (simp add: fetches_def iter_fetches_steps split: call.splits sum.splits)

lemma query_calls_steps: "filter (\<lambda>c. c \<noteq> NextResult) (query_calls lib) = five_queries lib"
  by (simp add: query_calls_def five_queries_def fetches_steps)

lemma spec_calls_steps:
  "filter (\<lambda>c. c \<noteq> NextResult) (spec_calls lib indexName hotelIndexDefinition hotels) =
     spec_steps lib indexName hotelIndexDefinition hotels"
  by (simp add: spec_calls_def spec_steps_def query_calls_steps)

lemma sendQueries_plan:
  obtains i j where
    "calls (trace (snd (sendQueries lib s))) = calls (trace s) @ take i (query_calls lib)"
    "heap (snd (sendQueries lib s)) = heap s @ take j (allocations lib (length (heap s)))"
    "fst (sendQueries lib s) = Inr () \<Longrightarrow> length (query_calls lib) \<le> i \<and> length (allocations lib (length (heap s))) \<le> j"
proof -
  obtain T H where s: "s = \<lparr>trace = T, heap = H\<rparr>" by (cases s) simp
  from follows_sendQueries[of lib H] obtain i j where
    "calls (trace (snd (sendQueries lib \<lparr>trace = T, heap = H\<rparr>))) = calls T @ take i (query_calls lib)"
    "heap (snd (sendQueries lib \<lparr>trace = T, heap = H\<rparr>)) = H @ take j (allocations lib (length H))"
    "\<not> isl (fst (sendQueries lib \<lparr>trace = T, heap = H\<rparr>)) \<longrightarrow>
        length (query_calls lib) \<le> i \<and> length (allocations lib (length H)) \<le> j"
    unfolding follows_def by blast
  with s that[of i j] show thesis by simp
qed

lemma sendQueries_calls_prefix:
  "prefix (calls (trace (snd (sendQueries lib s)))) (calls (trace s) @ query_calls lib)"
  by (rule sendQueries_plan[of lib s]) (simp add: take_is_prefix)

lemma sendQueries_calls_complete:
  "fst (sendQueries lib s) = Inr () \<Longrightarrow>
     calls (trace (snd (sendQueries lib s))) = calls (trace s) @ query_calls lib"
  by (rule sendQueries_plan[of lib s]) simp

lemma sendQueries_steps_prefix:
  "prefix (steps (trace (snd (sendQueries lib s)))) (steps (trace s) @ five_queries lib)"
  using filter_mono_prefix[OF sendQueries_calls_prefix, of "\<lambda>c. c \<noteq> NextResult" lib s]
  by (simp add: steps_calls query_calls_steps)

lemma sendQueries_steps_complete:
  "fst (sendQueries lib s) = Inr () \<Longrightarrow>
     steps (trace (snd (sendQueries lib s))) = steps (trace s) @ five_queries lib"
  by (simp add: steps_calls sendQueries_calls_complete query_calls_steps)

lemma sendQueries_heap_prefix:
  "prefix (heap (snd (sendQueries lib s))) (heap s @ allocations lib (length (heap s)))"
  by (rule sendQueries_plan[of lib s]) (simp add: take_is_prefix)

lemma sendQueries_heap_kept: "prefix (heap s) (heap (snd (sendQueries lib s)))"
  by (rule sendQueries_plan[of lib s]) simp

lemma sendQueries_heap_complete:
  "fst (sendQueries lib s) = Inr () \<Longrightarrow>
     heap (snd (sendQueries lib s)) = heap s @ allocations lib (length (heap s))"
  by (rule sendQueries_plan[of lib s]) simp

lemma search_okD:
  assumes "search_ok lib (Search t opts)"
  obtains r where "search lib t opts = Inr r" "iter_outcome (results_iter r) = Inr ()"
  using assms by (auto simp: search_ok_def split: sum.splits)

lemma sendQueries_to_lookup:
  assumes "list_all (search_ok lib) (five_queries lib)"
  shows "fst (sendQueries lib s) = map_sum id (\<lambda>d. ()) (getDocument lib ''3'')"
proof -
  obtain T H where s: "s = \<lparr>trace = T, heap = H\<rparr>" by (cases s) simp
  from assms obtain r1 r2 r3 r4 where
    "search lib ''*'' (JObj [(''includeTotalCount'', JBool True), (''select'', selectFields_value)]) = Inr r1"
    "iter_outcome (results_iter r1) = Inr ()"
    "search lib ''wifi'' (JObj [(''filter'', JStr (odata lib [''Address/StateProvince eq '', ''''] [JStr ''FL''])),
                             (''orderBy'', JArr [JStr ''Rating desc'']),
                             (''select'', selectFields_value)]) = Inr r2"
    "iter_outcome (results_iter r2) = Inr ()"
    "search lib ''sublime cliff'' (JObj [(''select'', selectFields_value),
                                      (''searchFields'', JArr [JStr ''HotelName''])]) = Inr r3"
    "iter_outcome (results_iter r3) = Inr ()"
    "search lib ''*'' (JObj [(''facets'', JArr [JStr ''Category'']),
                          (''select'', selectFields_value),
                          (''searchFields'', JArr [JStr ''HotelName''])]) = Inr r4"
    "iter_outcome (results_iter r4) = Inr ()"
    by (auto simp: five_queries_def elim!: search_okD)
  then show ?thesis
    unfolding s selectFields_value_def
    by (cases "getDocument lib ''3''") (simp_all add: sendQueries_def run_simps store_simps)
qed


lemma demo_searches_ok: "list_all (search_ok demo_sdk) (five_queries demo_sdk)"
  by (simp add: five_queries_def search_ok_def demo_sdk_def demo_hit_def)

lemma missing_document_searches_ok: "list_all (search_ok missing_document_sdk) (five_queries missing_document_sdk)"
  by (simp add: five_queries_def search_ok_def missing_document_sdk_def demo_sdk_def demo_hit_def)

lemma demo_queries_complete: "fst (sendQueries demo_sdk s) = Inr ()"
  by (simp add: sendQueries_to_lookup[OF demo_searches_ok]) (simp add: demo_sdk_def)

text \<open>
  Claim C5. The query runner issues the five queries of \<open>five_queries\<close>, in that
  order and with exactly those option combinations: from any state, the operations it
  starts are an initial part of the five (it stops at the first that fails), and all five
  when it returns. The fifth is the lookup of the key \<open>3\<close>, an operation of its own and
  not a search; when the four searches succeed the runner returns if the lookup does, and
  raises the lookup's error (a not-found error among others) if it is rejected.
\<close>

theorem five_queries_in_order:
  "prefix (steps (trace (snd (sendQueries lib s)))) (steps (trace s) @ five_queries lib)
   \<and> (fst (sendQueries lib s) = Inr () \<longrightarrow>
        steps (trace (snd (sendQueries lib s))) = steps (trace s) @ five_queries lib)
   \<and> (list_all (search_ok lib) (five_queries lib) \<and> getDocument lib ''3'' = Inr d \<longrightarrow>
        fst (sendQueries lib s) = Inr ())
   \<and> (list_all (search_ok lib) (five_queries lib) \<and> getDocument lib ''3'' = Inl e \<longrightarrow>
        fst (sendQueries lib s) = Inl e)"
  by (simp add: sendQueries_steps_prefix sendQueries_steps_complete sendQueries_to_lookup)

theorem five_queries_witness:
  "prefix (steps (trace (snd (sendQueries demo_sdk init)))) (steps (trace init) @ five_queries demo_sdk)
   \<and> list_all (search_ok demo_sdk) (five_queries demo_sdk)
   \<and> getDocument demo_sdk ''3'' = Inr \<lparr>HotelId = ''3'', HotelName = ''Gastronomic Landscape Hotel'', other_fields = []\<rparr>
   \<and> fst (sendQueries demo_sdk init) = Inr ()
   \<and> steps (trace (snd (sendQueries demo_sdk init))) = steps (trace init) @ five_queries demo_sdk
   \<and> list_all (search_ok missing_document_sdk) (five_queries missing_document_sdk)
   \<and> getDocument missing_document_sdk ''3'' = Inl (RestError 404 ''Document not found'')
   \<and> fst (sendQueries missing_document_sdk init) = Inl (RestError 404 ''Document not found'')"
proof -
  have d: "getDocument demo_sdk ''3'' =
             Inr \<lparr>HotelId = ''3'', HotelName = ''Gastronomic Landscape Hotel'', other_fields = []\<rparr>"
    by (simp add: demo_sdk_def)
  have m: "getDocument missing_document_sdk ''3'' = Inl (RestError 404 ''Document not found'')"
    by (simp add: missing_document_sdk_def)
  show ?thesis
    using five_queries_in_order
            [of demo_sdk init "\<lparr>HotelId = ''3'', HotelName = ''Gastronomic Landscape Hotel'', other_fields = []\<rparr>"
                "RestError 404 ''Document not found''"]
          five_queries_in_order
            [of missing_document_sdk init
                "\<lparr>HotelId = ''3'', HotelName = ''Gastronomic Landscape Hotel'', other_fields = []\<rparr>"
                "RestError 404 ''Document not found''"]
          d m demo_searches_ok missing_document_searches_ok
    by simp
qed

subsection \<open>The order of the steps\<close>

lemma main_completes:
  assumes "endpoint \<noteq> []" "apiKey \<noteq> []" "get_prop hotelIndexDefinition ''name'' = Inr indexName"
      and "createIndex lib hotelIndexDefinition = Inr index"
      and "mergeOrUploadDocuments lib hotels = Inr r" "results r \<noteq> []"
      and "getDocumentsCount lib = Inr n"
      and "list_all (search_ok lib) (five_queries lib)"
      and "getDocument lib ''3'' = Inr d"
  shows "fst (main lib endpoint apiKey hotels hotelIndexDefinition init) = Inr ()"
proof -
  from assms(6) obtain x xs where "results r = x # xs" by (cases "results r") simp_all
  with assms show ?thesis
    by (simp add: main_def init_def run_simps sendQueries_to_lookup)
qed

lemma main_plan:
  assumes "endpoint \<noteq> []" "apiKey \<noteq> []" "get_prop hotelIndexDefinition ''name'' = Inr indexName"
  obtains i where
    "calls (trace (snd (main lib endpoint apiKey hotels hotelIndexDefinition init))) =
       take i (spec_calls lib indexName hotelIndexDefinition hotels)"
    "fst (main lib endpoint apiKey hotels hotelIndexDefinition init) = Inr () \<Longrightarrow>
       length (spec_calls lib indexName hotelIndexDefinition hotels) \<le> i"
proof -
  let ?m = "main lib endpoint apiKey hotels hotelIndexDefinition"
  from follows_main[OF assms, of lib hotels] obtain i j where
    "calls (trace (snd (?m \<lparr>trace = [], heap = []\<rparr>))) = calls [] @ take i (spec_calls lib indexName hotelIndexDefinition hotels)"
    "\<not> isl (fst (?m \<lparr>trace = [], heap = []\<rparr>)) \<longrightarrow>
        length (spec_calls lib indexName hotelIndexDefinition hotels) \<le> i \<and> length (allocations lib 0) \<le> j"
    unfolding follows_def by blast
  with that[of i] show thesis by (simp add: init_def)
qed

lemma main_calls_prefix:
  assumes "endpoint \<noteq> []" "apiKey \<noteq> []" "get_prop hotelIndexDefinition ''name'' = Inr indexName"
  shows "prefix (calls (trace (snd (main lib endpoint apiKey hotels hotelIndexDefinition init))))
                (spec_calls lib indexName hotelIndexDefinition hotels)"
  by (rule main_plan[OF assms, of lib hotels]) (simp add: take_is_prefix)

lemma main_calls_complete:
  assumes "endpoint \<noteq> []" "apiKey \<noteq> []" "get_prop hotelIndexDefinition ''name'' = Inr indexName"
      and "fst (main lib endpoint apiKey hotels hotelIndexDefinition init) = Inr ()"
  shows "calls (trace (snd (main lib endpoint apiKey hotels hotelIndexDefinition init))) =
           spec_calls lib indexName hotelIndexDefinition hotels"
  by (rule main_plan[OF assms(1-3), of lib hotels]) (simp add: assms(4))

lemma main_in_turn:
  "awaited_in_turn (trace (snd (main lib endpoint apiKey hotels hotelIndexDefinition init)))"
  using in_turn_main[of lib endpoint apiKey hotels hotelIndexDefinition]
  unfolding in_turn_def by (simp add: init_def)

text \<open>
  The two observations tell a script that overlaps operations from one that does not: a
  script that starts a second search before it has fetched the results of the first is
  not in turn, and the operations it starts are not in the order of the plan.
\<close>

lemma overlapping_searches_are_not_in_turn:
  "\<not> awaited_in_turn
        (trace (snd (bindM (start (Search ''*'' JUndefined) (search demo_sdk ''*'' JUndefined)) (\<lambda>p.
                     bindM (start (Search ''wifi'' JUndefined) (search demo_sdk ''wifi'' JUndefined)) (\<lambda>q.
                     bindM (settle p) (\<lambda>r1.
                     bindM (settle q) (\<lambda>r2.
                     thenM (print_results r1) (print_results r2))))) init)))"
  by (simp add: bindM_def thenM_def start_def settle_def init_def print_results_def await_run
                demo_sdk_def status_of_def console_log_def emit_def)

lemma overlapping_searches_are_out_of_order:
  "calls (trace (snd (bindM (start (Search ''*'' JUndefined) (search demo_sdk ''*'' JUndefined)) (\<lambda>p.
                     bindM (start (Search ''wifi'' JUndefined) (search demo_sdk ''wifi'' JUndefined)) (\<lambda>q.
                     bindM (settle p) (\<lambda>r1.
                     bindM (settle q) (\<lambda>r2.
                     thenM (print_results r1) (print_results r2))))) init))) =
     [Search ''*'' JUndefined, Search ''wifi'' JUndefined, NextResult, NextResult, NextResult, NextResult]
   \<and> Search ''*'' JUndefined # fetches demo_sdk (Search ''*'' JUndefined) @
       Search ''wifi'' JUndefined # fetches demo_sdk (Search ''wifi'' JUndefined) =
     [Search ''*'' JUndefined, NextResult, NextResult, Search ''wifi'' JUndefined, NextResult, NextResult]"
  by (simp add: bindM_def thenM_def start_def settle_def init_def print_results_def await_run
                fetches_def demo_sdk_def status_of_def console_log_def emit_def)

text \<open>
  Claim C6. In every configured run the steps are taken in the order of
  \<open>spec_steps\<close>, after the configuration check has passed: deletion of the index,
  creation of the index from the schema, upload of the records, the delay of 1000 ms, the
  document count, then the five queries. All the operations the run starts, the fetches of
  the query results included, are an initial part of \<open>spec_calls\<close>, in which the
  results of each search are fetched to the end before the next query is started: none is
  skipped, repeated or taken out of order, and the run stops at the first that fails.
  Every operation settles before the next event of the run, so that none overlaps
  another. A run that returns has taken all of them, and a run in which every operation
  succeeds does return.
\<close>

theorem steps_run_in_order:
  assumes "endpoint \<noteq> []" "apiKey \<noteq> []" "get_prop hotelIndexDefinition ''name'' = Inr indexName"
  shows "prefix (calls (trace (snd (main lib endpoint apiKey hotels hotelIndexDefinition init))))
                (spec_calls lib indexName hotelIndexDefinition hotels)
       \<and> prefix (steps (trace (snd (main lib endpoint apiKey hotels hotelIndexDefinition init))))
                (spec_steps lib indexName hotelIndexDefinition hotels)
       \<and> awaited_in_turn (trace (snd (main lib endpoint apiKey hotels hotelIndexDefinition init)))
       \<and> (fst (main lib endpoint apiKey hotels hotelIndexDefinition init) = Inr () \<longrightarrow>
            calls (trace (snd (main lib endpoint apiKey hotels hotelIndexDefinition init))) =
              spec_calls lib indexName hotelIndexDefinition hotels
            \<and> steps (trace (snd (main lib endpoint apiKey hotels hotelIndexDefinition init))) =
              spec_steps lib indexName hotelIndexDefinition hotels)
       \<and> (createIndex lib hotelIndexDefinition = Inr index
            \<and> mergeOrUploadDocuments lib hotels = Inr r \<and> results r \<noteq> []
            \<and> getDocumentsCount lib = Inr n
            \<and> list_all (search_ok lib) (five_queries lib)
            \<and> getDocument lib ''3'' = Inr d \<longrightarrow>
            fst (main lib endpoint apiKey hotels hotelIndexDefinition init) = Inr ())"
proof -
  let ?m = "main lib endpoint apiKey hotels hotelIndexDefinition"
  have c: "prefix (calls (trace (snd (?m init)))) (spec_calls lib indexName hotelIndexDefinition hotels)"
    by (rule main_calls_prefix[OF assms])
  have "prefix (steps (trace (snd (?m init)))) (spec_steps lib indexName hotelIndexDefinition hotels)"
    using filter_mono_prefix[OF c, of "\<lambda>c. c \<noteq> NextResult"]
    by (simp add: steps_calls spec_calls_steps)
  moreover have "fst (?m init) = Inr () \<longrightarrow>
            calls (trace (snd (?m init))) = spec_calls lib indexName hotelIndexDefinition hotels
            \<and> steps (trace (snd (?m init))) = spec_steps lib indexName hotelIndexDefinition hotels"
    by (simp add: steps_calls main_calls_complete[OF assms] spec_calls_steps)
  moreover have "awaited_in_turn (trace (snd (?m init)))"
    by (rule main_in_turn)
  ultimately show ?thesis
    using assms c by (simp add: main_completes)
qed

theorem steps_run_in_order_witness:
  "''https://demo.search.windows.net'' \<noteq> [] \<and> ''key'' \<noteq> []
   \<and> get_prop demo_index ''name'' = Inr (JStr ''hotels-quickstart'')
   \<and> createIndex demo_sdk demo_index = Inr \<lparr>name = ''hotels-quickstart''\<rparr>
   \<and> mergeOrUploadDocuments demo_sdk demo_records = Inr \<lparr>results = [\<lparr>key = ''3'', succeeded = True, statusCode = 201\<rparr>]\<rparr>
   \<and> results \<lparr>results = [\<lparr>key = ''3'', succeeded = True, statusCode = 201\<rparr>]\<rparr> \<noteq> []
   \<and> getDocumentsCount demo_sdk = Inr 1
   \<and> list_all (search_ok demo_sdk) (five_queries demo_sdk)
   \<and> getDocument demo_sdk ''3'' = Inr \<lparr>HotelId = ''3'', HotelName = ''Gastronomic Landscape Hotel'', other_fields = []\<rparr>
   \<and> fst (main demo_sdk ''https://demo.search.windows.net'' ''key'' demo_records demo_index init) = Inr ()
   \<and> calls (trace (snd (main demo_sdk ''https://demo.search.windows.net'' ''key'' demo_records demo_index init))) =
       spec_calls demo_sdk (JStr ''hotels-quickstart'') demo_index demo_records
   \<and> steps (trace (snd (main demo_sdk ''https://demo.search.windows.net'' ''key'' demo_records demo_index init))) =
       spec_steps demo_sdk (JStr ''hotels-quickstart'') demo_index demo_records
   \<and> prefix (calls (trace (snd (main demo_sdk ''https://demo.search.windows.net'' ''key'' demo_records demo_index init))))
                (spec_calls demo_sdk (JStr ''hotels-quickstart'') demo_index demo_records)
   \<and> prefix (steps (trace (snd (main demo_sdk ''https://demo.search.windows.net'' ''key'' demo_records demo_index init))))
                (spec_steps demo_sdk (JStr ''hotels-quickstart'') demo_index demo_records)
   \<and> awaited_in_turn (trace (snd (main demo_sdk ''https://demo.search.windows.net'' ''key'' demo_records demo_index init)))"
proof -
  have f: "createIndex demo_sdk demo_index = Inr \<lparr>name = ''hotels-quickstart''\<rparr>"
      "mergeOrUploadDocuments demo_sdk demo_records = Inr \<lparr>results = [\<lparr>key = ''3'', succeeded = True, statusCode = 201\<rparr>]\<rparr>"
      "getDocumentsCount demo_sdk = Inr 1"
      "getDocument demo_sdk ''3'' = Inr \<lparr>HotelId = ''3'', HotelName = ''Gastronomic Landscape Hotel'', other_fields = []\<rparr>"
    by (simp_all add: demo_sdk_def)
  show ?thesis
    using steps_run_in_order
            [of "''https://demo.search.windows.net''" "''key''" demo_index "JStr ''hotels-quickstart''"
                demo_sdk demo_records "\<lparr>name = ''hotels-quickstart''\<rparr>"
                "\<lparr>results = [\<lparr>key = ''3'', succeeded = True, statusCode = 201\<rparr>]\<rparr>" 1
                "\<lparr>HotelId = ''3'', HotelName = ''Gastronomic Landscape Hotel'', other_fields = []\<rparr>"]
          f demo_searches_ok
    by (simp add: demo_name)
qed

subsection \<open>The option objects\<close>

lemma heap_search_call: "heap (snd (search_call lib t a s)) = heap s"
  by (simp add: search_call_def await_run)

lemma heap_await: "heap (snd (await c r s)) = heap s"
  by (simp add: await_run)

lemma heap_print_results: "heap (snd (print_results sr s)) = heap s"
  by (cases s) (simp add: print_results_def for_await_run)

lemma lookup_prefix: "prefix h h' \<Longrightarrow> lookup h a = Some ob \<Longrightarrow> lookup h' a = Some ob"
  by (auto simp: prefix_def lookup_def nth_append split: if_splits)

lemma assign_overwrites:
  "lookup (heap (snd (assign 0 (ArrayObj [JStr ''HotelId'']) \<lparr>trace = [], heap = [ArrayObj [JStr ''Rating'']]\<rparr>))) 0
     = Some (ArrayObj [JStr ''HotelId''])"
  by (simp add: assign_def lookup_def)

lemma option_cells_share:
  assumes "i \<in> set option_cells" "j \<in> set option_cells" "i \<noteq> j"
  shows "set (refs_of (allocations lib base ! i)) \<inter> set (refs_of (allocations lib base ! j)) = {base}"
  using assms by (auto simp: option_cells_def allocations_def)

lemma option_cells_select:
  "i \<in> set option_cells \<Longrightarrow>
     map_of (case allocations lib base ! i of RecordObj kvs \<Rightarrow> kvs | ArrayObj xs \<Rightarrow> []) ''select'' = Some (Ref base)"
  by (auto simp: option_cells_def allocations_def)

lemma option_cells_requests:
  "map2 Search [''*'', ''wifi'', ''sublime cliff'', ''*'']
        (map (\<lambda>c. deref (H @ allocations lib (length H)) (length H + c)) option_cells)
     @ [GetDocument ''3''] = five_queries lib"
  by (simp add: option_cells_def allocations_def five_queries_def selectFields_value_def store_simps)

lemma shares_state_complete:
  assumes "fst (sendQueries lib s) = Inr ()" "i \<in> set option_cells" "j \<in> set option_cells" "i \<noteq> j"
  shows "shares_state (heap (snd (sendQueries lib s))) (length (heap s) + i) (length (heap s) + j)"
proof -
  have l: "i < length (allocations lib (length (heap s)))" "j < length (allocations lib (length (heap s)))"
    using assms(2,3) by (auto simp: option_cells_def allocations_def)
  show ?thesis
    using l assms(4) option_cells_share[OF assms(2-4), of lib "length (heap s)"]
    by (simp add: sendQueries_heap_complete[OF assms(1)] shares_state_def nth_append)
qed

text \<open>
  Against claim C7 as it is worded (no mutable state is shared between queries). In the
  store after a complete run from the initial state, the options objects of query 1
  (cell 1) and of query 2 (cell 3) both refer to cell 0: the select array, a mutable
  object built once, before query 1, and not again.
\<close>

theorem select_array_is_shared:
  "shares_state (heap (snd (sendQueries demo_sdk init))) 1 3
   \<and> refs_of (heap (snd (sendQueries demo_sdk init)) ! 1) = [0]
   \<and> refs_of (heap (snd (sendQueries demo_sdk init)) ! 3) = [2, 0]
   \<and> heap (snd (sendQueries demo_sdk init)) ! 0 = ArrayObj [JStr ''HotelId'', JStr ''HotelName'', JStr ''Rating'']"
  by (simp add: sendQueries_heap_complete[OF demo_queries_complete] init_def allocations_def shares_state_def)

text \<open>
  Claim C7, amended. There are four options objects, one for each search query; the
  fifth query, a lookup by key, takes none. Each is built for its query in a new cell of
  the store (the cells \<open>option_cells\<close> of \<open>allocations\<close>), with the arrays for
  ordering, search fields and facets built for that query too, and the requests made with
  them are the five queries. The select array is not built per query: it is one array,
  built once before the first query, and the \<open>select\<close> field of all four options
  objects refers to it, so that any two options objects share it, and share nothing
  else. The script never writes to an object it has built: what a cell of the store
  holds on entry it holds on return, the store on return is the store on entry followed
  by an initial part of \<open>allocations\<close> (all of it when the function returns), and
  executing a query (the search request, the printing loop, the lookup) leaves the store
  as it is, the library being taken not to write to the objects it is passed. So no
  query's execution changes what a later query's options are built from.
\<close>

theorem option_objects_fresh_select_shared:
  "(lookup (heap s) a = Some ob \<longrightarrow> lookup (heap (snd (sendQueries lib s))) a = Some ob)
   \<and> prefix (heap (snd (sendQueries lib s))) (heap s @ allocations lib (length (heap s)))
   \<and> (fst (sendQueries lib s) = Inr () \<longrightarrow>
        heap (snd (sendQueries lib s)) = heap s @ allocations lib (length (heap s)))
   \<and> distinct option_cells \<and> length option_cells = 4
   \<and> map2 Search [''*'', ''wifi'', ''sublime cliff'', ''*'']
          (map (\<lambda>c. deref (heap s @ allocations lib (length (heap s))) (length (heap s) + c)) option_cells)
       @ [GetDocument ''3''] = five_queries lib
   \<and> (i \<in> set option_cells \<longrightarrow>
        map_of (case allocations lib (length (heap s)) ! i of RecordObj kvs \<Rightarrow> kvs | ArrayObj xs \<Rightarrow> [])
               ''select'' = Some (Ref (length (heap s))))
   \<and> (i \<in> set option_cells \<and> j \<in> set option_cells \<and> i \<noteq> j \<longrightarrow>
        set (refs_of (allocations lib (length (heap s)) ! i)) \<inter>
        set (refs_of (allocations lib (length (heap s)) ! j)) = {length (heap s)})
   \<and> (fst (sendQueries lib s) = Inr () \<and> i \<in> set option_cells \<and> j \<in> set option_cells \<and> i \<noteq> j \<longrightarrow>
        shares_state (heap (snd (sendQueries lib s))) (length (heap s) + i) (length (heap s) + j))
   \<and> heap (snd (search_call lib t options s)) = heap s
   \<and> heap (snd (print_results sr s)) = heap s
   \<and> heap (snd (await (GetDocument k) r s)) = heap s"
proof (intro conjI)
  show "lookup (heap s) a = Some ob \<longrightarrow> lookup (heap (snd (sendQueries lib s))) a = Some ob"
    using lookup_prefix[OF sendQueries_heap_kept, of s a ob lib] by simp
  show "prefix (heap (snd (sendQueries lib s))) (heap s @ allocations lib (length (heap s)))"
    by (rule sendQueries_heap_prefix)
  show "fst (sendQueries lib s) = Inr () \<longrightarrow>
        heap (snd (sendQueries lib s)) = heap s @ allocations lib (length (heap s))"
    by (simp add: sendQueries_heap_complete)
  show "distinct option_cells" "length option_cells = 4"
    by (simp_all add: option_cells_def)
  show "map2 Search [''*'', ''wifi'', ''sublime cliff'', ''*'']
          (map (\<lambda>c. deref (heap s @ allocations lib (length (heap s))) (length (heap s) + c)) option_cells)
       @ [GetDocument ''3''] = five_queries lib"
    by (rule option_cells_requests)
  show "i \<in> set option_cells \<longrightarrow>
        map_of (case allocations lib (length (heap s)) ! i of RecordObj kvs \<Rightarrow> kvs | ArrayObj xs \<Rightarrow> [])
               ''select'' = Some (Ref (length (heap s)))"
    using option_cells_select[of i lib "length (heap s)"] by blast
  show "i \<in> set option_cells \<and> j \<in> set option_cells \<and> i \<noteq> j \<longrightarrow>
        set (refs_of (allocations lib (length (heap s)) ! i)) \<inter>
        set (refs_of (allocations lib (length (heap s)) ! j)) = {length (heap s)}"
    using option_cells_share[of i j lib "length (heap s)"] by blast
  show "fst (sendQueries lib s) = Inr () \<and> i \<in> set option_cells \<and> j \<in> set option_cells \<and> i \<noteq> j \<longrightarrow>
        shares_state (heap (snd (sendQueries lib s))) (length (heap s) + i) (length (heap s) + j)"
    using shares_state_complete[of lib s i j] by blast
  show "heap (snd (search_call lib t options s)) = heap s"
    by (rule heap_search_call)
  show "heap (snd (print_results sr s)) = heap s"
    by (rule heap_print_results)
  show "heap (snd (await (GetDocument k) r s)) = heap s"
    by (rule heap_await)
qed

theorem option_objects_fresh_select_shared_witness:
  "lookup (heap \<lparr>trace = [], heap = [ArrayObj [JStr ''Rating'']]\<rparr>) 0 = Some (ArrayObj [JStr ''Rating''])
   \<and> lookup (heap (snd (sendQueries demo_sdk \<lparr>trace = [], heap = [ArrayObj [JStr ''Rating'']]\<rparr>))) 0
        = Some (ArrayObj [JStr ''Rating''])
   \<and> fst (sendQueries demo_sdk \<lparr>trace = [], heap = [ArrayObj [JStr ''Rating'']]\<rparr>) = Inr ()
   \<and> heap (snd (sendQueries demo_sdk \<lparr>trace = [], heap = [ArrayObj [JStr ''Rating'']]\<rparr>))
        = [ArrayObj [JStr ''Rating'']] @ allocations demo_sdk 1
   \<and> (1::nat) \<in> set option_cells \<and> (3::nat) \<in> set option_cells \<and> (1::nat) \<noteq> 3
   \<and> map_of (case allocations demo_sdk 1 ! 1 of RecordObj kvs \<Rightarrow> kvs | ArrayObj xs \<Rightarrow> []) ''select'' = Some (Ref 1)
   \<and> set (refs_of (allocations demo_sdk 1 ! 1)) \<inter> set (refs_of (allocations demo_sdk 1 ! 3)) = {1}
   \<and> shares_state (heap (snd (sendQueries demo_sdk \<lparr>trace = [], heap = [ArrayObj [JStr ''Rating'']]\<rparr>))) 2 4"
  using option_objects_fresh_select_shared
          [of "\<lparr>trace = [], heap = [ArrayObj [JStr ''Rating'']]\<rparr>" 0 "ArrayObj [JStr ''Rating'']" demo_sdk
              1 3 "''*''" 1 "\<lparr>count = None, results_iter = Done\<rparr>" "''3''" "getDocument demo_sdk ''3''"]
        demo_queries_complete[of "\<lparr>trace = [], heap = [ArrayObj [JStr ''Rating'']]\<rparr>"]
  apply (elim conjE)
  apply (simp add: lookup_def option_cells_def numeral_2_eq_2)
  done

end
